theory Spec2Isabelle
  imports Complex_Main "HOL-Library.AList"
begin

section \<open>Python values shared by the models\<close>

text \<open>
  Payloads typed \<^verbatim>\<open>dict[str, Any]\<close> or \<^verbatim>\<open>Any\<close> in the source (tool inputs, JSON schemas)
  are carried as JSON values. A Python \<^verbatim>\<open>dict\<close> keeps insertion order, so dictionaries
  are association lists: assignment replaces the value of an existing key in place or
  appends a new key, \<^verbatim>\<open>del\<close> removes the key.
\<close>

datatype json = JNull | JBool bool | JInt int | JStr string
  | JList "json list" | JDict "(string \<times> json) list"

definition dict_get :: "('k \<times> 'v) list \<Rightarrow> 'k \<Rightarrow> 'v option" where
  "dict_get d k = map_of d k"

definition dict_set :: "('k \<times> 'v) list \<Rightarrow> 'k \<Rightarrow> 'v \<Rightarrow> ('k \<times> 'v) list" where
  "dict_set d k v = AList.update k v d"

definition dict_del :: "('k \<times> 'v) list \<Rightarrow> 'k \<Rightarrow> ('k \<times> 'v) list" where
  "dict_del d k = AList.delete k d"

definition dict_has :: "('k \<times> 'v) list \<Rightarrow> 'k \<Rightarrow> bool" where
  "dict_has d k = (k \<in> fst ` set d)"

definition dict_values :: "('k \<times> 'v) list \<Rightarrow> 'v list" where
  "dict_values d = map snd d"

text \<open>
  Python slices. \<^verbatim>\<open>xs[:n]\<close> for \<^verbatim>\<open>n >= 0\<close> is \<open>take n\<close>. \<^verbatim>\<open>xs[i:]\<close> starts at
  \<^verbatim>\<open>max(len(xs) + i, 0)\<close> when \<^verbatim>\<open>i < 0\<close> and at \<^verbatim>\<open>i\<close> otherwise; in particular
  \<^verbatim>\<open>xs[-0:]\<close> is \<^verbatim>\<open>xs[0:]\<close>, the whole list.
\<close>

definition py_slice_from :: "int \<Rightarrow> 'a list \<Rightarrow> 'a list" where
  "py_slice_from i xs =
     (if i < 0 then drop (nat (int (length xs) + i)) xs else drop (nat i) xs)"

text \<open>
  Characters are code points below 256; a class of characters is a list of ranges.
  \<^verbatim>\<open>repr\<close> of a \<^verbatim>\<open>str\<close>: in single quotes, or in double quotes when the text holds a
  single quote and no double quote; the chosen quote and the backslash are escaped, tab,
  newline and carriage return are written \<^verbatim>\<open>\t\<close>, \<^verbatim>\<open>\n\<close>, \<^verbatim>\<open>\r\<close>, and every other character
  that \<^verbatim>\<open>str.isprintable\<close> rejects is written \<^verbatim>\<open>\xhh\<close>.
\<close>

definition in_ranges :: "nat \<Rightarrow> (nat \<times> nat) list \<Rightarrow> bool" where
  "in_ranges n rs = list_ex (\<lambda>(a, b). a \<le> n \<and> n \<le> b) rs"

definition printable :: "char \<Rightarrow> bool" where
  "printable c = in_ranges (of_char c) [(32, 126), (161, 172), (174, 255)]"

definition hex_digit :: "nat \<Rightarrow> char" where
  "hex_digit n = ''0123456789abcdef'' ! n"

definition repr_char :: "char \<Rightarrow> char \<Rightarrow> string" where
  "repr_char q c =
     (if c = q \<or> c = CHR 0x5C then [CHR 0x5C, c]
      else if c = CHR 0x09 then [CHR 0x5C, CHR ''t'']
      else if c = CHR 0x0A then [CHR 0x5C, CHR ''n'']
      else if c = CHR 0x0D then [CHR 0x5C, CHR ''r'']
      else if \<not> printable c
      then [CHR 0x5C, CHR ''x'', hex_digit ((of_char c :: nat) div 16),
            hex_digit ((of_char c :: nat) mod 16)]
      else [c])"

definition py_repr :: "string \<Rightarrow> string" where
  "py_repr s =
     (let q = (if CHR 0x27 \<in> set s \<and> CHR 0x22 \<notin> set s then CHR 0x22 else CHR 0x27)
      in q # concat (map (repr_char q) s) @ [q])"

section \<open>Agent memory (core/memory.py)\<close>

record tool_result =
  tool_use_id :: string
  tr_content :: string
  is_error :: bool

datatype block = TextBlock string | ToolUseBlock string string json

datatype content = TextContent string | AssistantBlocks "block list"
  | ToolResults "tool_result list"

record turn =
  role :: string
  content :: content

record episodic_memory =
  em_id :: string
  summary :: string
  importance :: rat
  related_agent_ids :: "string list"
  related_tool_ids :: "string list"

record agent_memory =
  conversation_history :: "turn list"
  max_conversation_turns :: int
  episodic_memories :: "episodic_memory list"
  max_episodic_memories :: int
  knowledge :: "(string \<times> string) list"
  role_notes :: "string list"

text \<open>\<^verbatim>\<open>AgentMemory()\<close> with the defaults of the class.\<close>

definition AgentMemory :: agent_memory where
  "AgentMemory = \<lparr>conversation_history = [], max_conversation_turns = 50,
     episodic_memories = [], max_episodic_memories = 200, knowledge = [],
     role_notes = []\<rparr>"

definition compact_history :: "agent_memory \<Rightarrow> agent_memory" where
  "compact_history m =
     (if int (length (conversation_history m)) > max_conversation_turns m + 2
      then m\<lparr>conversation_history :=
             take 2 (conversation_history m)
             @ py_slice_from (- max_conversation_turns m) (conversation_history m)\<rparr>
      else m)"

definition add_conversation_turn :: "agent_memory \<Rightarrow> string \<Rightarrow> content \<Rightarrow> agent_memory" where
  "add_conversation_turn m r c =
     (let m1 = m\<lparr>conversation_history := conversation_history m @ [\<lparr>role = r, content = c\<rparr>]\<rparr>
      in if int (length (conversation_history m1)) > max_conversation_turns m1 * 2
         then compact_history m1 else m1)"

definition add_knowledge :: "agent_memory \<Rightarrow> string \<Rightarrow> string \<Rightarrow> agent_memory" where
  "add_knowledge m k v = m\<lparr>knowledge := dict_set (knowledge m) k v\<rparr>"

definition add_role_note :: "agent_memory \<Rightarrow> string \<Rightarrow> agent_memory" where
  "add_role_note m note = m\<lparr>role_notes := role_notes m @ [note]\<rparr>"

text \<open>A sequence of \<^verbatim>\<open>add_conversation_turn\<close> calls, in order.\<close>

fun add_turns :: "agent_memory \<Rightarrow> (string \<times> content) list \<Rightarrow> agent_memory" where
  "add_turns m [] = m"
| "add_turns m ((r, c) # ts) = add_turns (add_conversation_turn m r c) ts"

definition mk_turn :: "string \<times> content \<Rightarrow> turn" where
  "mk_turn rc = \<lparr>role = fst rc, content = snd rc\<rparr>"

section \<open>Tool definitions and the registry (core/tool.py, tools/registry.py)\<close>

datatype ToolScope = BUILTIN | SHARED | PRIVATE

type_synonym datetime = nat

record ToolDefinition =
  td_id :: string
  td_name :: string
  description :: string
  input_schema :: json
  scope :: ToolScope
  created_by_agent_id :: "string option"
  td_created_at :: datetime
  source_code :: "string option"
  version :: int
  usage_count :: int
  tags :: "string list"
  toolified_from_pattern :: "string option"
  example_invocations :: "json list"

record ToolExecutionRecord =
  tool_name :: string
  agent_id :: string
  input_params :: json
  rec_output :: string
  success :: bool
  duration_ms :: nat
  timestamp :: datetime

datatype error = ValueError string | PermissionError string | KeyError string
  | RuntimeError string | FileNotFoundError string

text \<open>
  The exceptions that the modelled code raises, each with its one argument. \<^verbatim>\<open>str\<close> of an
  exception is that argument, except for \<^verbatim>\<open>KeyError\<close>, where it is the \<^verbatim>\<open>repr\<close> of the key.
\<close>

fun str :: "error \<Rightarrow> string" where
  "str (ValueError m) = m"
| "str (PermissionError m) = m"
| "str (KeyError m) = py_repr m"
| "str (RuntimeError m) = m"
| "str (FileNotFoundError m) = m"

text \<open>
  The registry's two indexes hold references to the same \<^verbatim>\<open>ToolDefinition\<close> objects, and
  \<^verbatim>\<open>update\<close> and \<^verbatim>\<open>execute\<close> mutate those objects in place. The objects therefore live in
  a store (\<open>objs\<close>, addressed by position, never freed) and the indexes hold addresses.
  A handler is either one of the built-in functions, named by its key, or the closure
  that \<^verbatim>\<open>_make_custom_handler\<close> builds over one tool object.
\<close>

datatype handler = BuiltinHandler string | CustomHandler nat

record ToolRegistry =
  objs :: "ToolDefinition list"
  tools :: "(string \<times> nat) list"
  tools_by_name :: "(string \<times> nat) list"
  handlers :: "(string \<times> handler) list"
  execution_log :: "ToolExecutionRecord list"

text \<open>Python truthiness of \<^verbatim>\<open>tool_def.source_code\<close>: neither \<^verbatim>\<open>None\<close> nor empty.\<close>

definition truthy :: "string option \<Rightarrow> bool" where
  "truthy s = (case s of None \<Rightarrow> False | Some x \<Rightarrow> x \<noteq> [])"

text \<open>
  The keys of \<^verbatim>\<open>BUILTIN_TOOLS\<close> (tools/builtin.py), in order; every entry's definition
  has its key as name and a handler. The description and schema literals of the table
  are passed in (\<open>descr\<close>, \<open>schema\<close>), as are the identifiers that \<^verbatim>\<open>uuid4\<close> draws.
\<close>

definition BUILTIN_TOOLS :: "string list" where
  "BUILTIN_TOOLS = [''create_agent'', ''delegate_task'', ''broadcast'', ''create_tool'',
     ''edit_tool'', ''delete_tool'', ''sandbox'', ''evolve'', ''query_civilization'',
     ''form_alliance'']"

definition new_tool :: "string \<Rightarrow> string \<Rightarrow> string \<Rightarrow> json \<Rightarrow> ToolScope \<Rightarrow> datetime
    \<Rightarrow> ToolDefinition" where
  "new_tool i n d s sc now = \<lparr>td_id = i, td_name = n, description = d, input_schema = s,
     scope = sc, created_by_agent_id = None, td_created_at = now, source_code = None,
     version = 1, usage_count = 0, tags = [], toolified_from_pattern = None,
     example_invocations = []\<rparr>"

fun register_builtins :: "ToolRegistry \<Rightarrow> (string \<times> string) list \<Rightarrow> (string \<Rightarrow> string)
    \<Rightarrow> (string \<Rightarrow> json) \<Rightarrow> datetime \<Rightarrow> ToolRegistry" where
  "register_builtins r [] descr schema now = r"
| "register_builtins r ((n, i) # rest) descr schema now =
     (let tool_def = new_tool i n (descr n) (schema n) BUILTIN now;
          a = length (objs r)
      in register_builtins
           (r\<lparr>objs := objs r @ [tool_def],
              tools := dict_set (tools r) (td_id tool_def) a,
              tools_by_name := dict_set (tools_by_name r) n a,
              handlers := dict_set (handlers r) n (BuiltinHandler n)\<rparr>)
           rest descr schema now)"

definition ToolRegistry_init :: "string list \<Rightarrow> (string \<Rightarrow> string) \<Rightarrow> (string \<Rightarrow> json)
    \<Rightarrow> datetime \<Rightarrow> ToolRegistry" where
  "ToolRegistry_init ids descr schema now =
     register_builtins
       \<lparr>objs = [], tools = [], tools_by_name = [], handlers = [], execution_log = []\<rparr>
       (zip BUILTIN_TOOLS ids) descr schema now"

definition register :: "ToolRegistry \<Rightarrow> ToolDefinition \<Rightarrow> (error + unit) \<times> ToolRegistry" where
  "register r tool_def =
     (if dict_has (tools_by_name r) (td_name tool_def)
      then (Inl (ValueError (''Tool '' @ [CHR 0x27] @ td_name tool_def @ [CHR 0x27]
              @ '' already exists. Use edit_tool to modify it, or choose a different name.'')), r)
      else
        let a = length (objs r);
            r1 = r\<lparr>objs := objs r @ [tool_def],
                   tools := dict_set (tools r) (td_id tool_def) a,
                   tools_by_name := dict_set (tools_by_name r) (td_name tool_def) a\<rparr>;
            r2 = (if truthy (source_code tool_def)
                  then r1\<lparr>handlers := dict_set (handlers r1) (td_name tool_def) (CustomHandler a)\<rparr>
                  else r1)
        in (Inr (), r2))"

text \<open>
  The \<^verbatim>\<open>updates\<close> dictionary of \<^verbatim>\<open>update\<close>: one optional entry per declared field of
  \<^verbatim>\<open>ToolDefinition\<close> (\<open>Some v\<close>: the key is present with value \<open>v\<close>). Keys that name no
  attribute are skipped by the \<^verbatim>\<open>hasattr\<close> test and have no effect.
\<close>

record ToolUpdates =
  u_id :: "string option"
  u_name :: "string option"
  u_description :: "string option"
  u_input_schema :: "json option"
  u_scope :: "ToolScope option"
  u_created_by_agent_id :: "string option option"
  u_created_at :: "datetime option"
  u_source_code :: "string option option"
  u_version :: "int option"
  u_usage_count :: "int option"
  u_tags :: "string list option"
  u_toolified_from_pattern :: "string option option"
  u_example_invocations :: "json list option"

definition no_updates :: ToolUpdates where
  "no_updates = \<lparr>u_id = None, u_name = None, u_description = None, u_input_schema = None,
     u_scope = None, u_created_by_agent_id = None, u_created_at = None,
     u_source_code = None, u_version = None, u_usage_count = None, u_tags = None,
     u_toolified_from_pattern = None, u_example_invocations = None\<rparr>"

definition set_opt :: "'a option \<Rightarrow> 'a \<Rightarrow> 'a" where
  "set_opt u old = (case u of None \<Rightarrow> old | Some v \<Rightarrow> v)"

definition apply_updates :: "ToolUpdates \<Rightarrow> ToolDefinition \<Rightarrow> ToolDefinition" where
  "apply_updates u t =
     \<lparr>td_id = set_opt (u_id u) (td_id t),
      td_name = set_opt (u_name u) (td_name t),
      description = set_opt (u_description u) (description t),
      input_schema = set_opt (u_input_schema u) (input_schema t),
      scope = set_opt (u_scope u) (scope t),
      created_by_agent_id = set_opt (u_created_by_agent_id u) (created_by_agent_id t),
      td_created_at = set_opt (u_created_at u) (td_created_at t),
      source_code = set_opt (u_source_code u) (source_code t),
      version = set_opt (u_version u) (version t),
      usage_count = set_opt (u_usage_count u) (usage_count t),
      tags = set_opt (u_tags u) (tags t),
      toolified_from_pattern = set_opt (u_toolified_from_pattern u) (toolified_from_pattern t),
      example_invocations = set_opt (u_example_invocations u) (example_invocations t)\<rparr>"

text \<open>
  \<^verbatim>\<open>update\<close>. The object is mutated before the indexes are touched, so a \<^verbatim>\<open>KeyError\<close> from
  \<^verbatim>\<open>del self._tools_by_name[old_name]\<close> leaves the mutated object behind: every outcome
  comes with the registry as it is then.
\<close>

definition rebuild_handler :: "ToolUpdates \<Rightarrow> nat \<Rightarrow> ToolRegistry \<Rightarrow> ToolRegistry" where
  "rebuild_handler u a r =
     (if u_source_code u \<noteq> None \<and> truthy (source_code (objs r ! a))
      then r\<lparr>handlers := dict_set (handlers r) (td_name (objs r ! a)) (CustomHandler a)\<rparr>
      else r)"

definition update :: "ToolRegistry \<Rightarrow> string \<Rightarrow> ToolUpdates \<Rightarrow> string
    \<Rightarrow> (error + ToolDefinition) \<times> ToolRegistry" where
  "update r tool_id u requesting_agent_id =
     (case dict_get (tools r) tool_id of
        None \<Rightarrow> (Inl (ValueError (''No tool found with id '' @ [CHR 0x27] @ tool_id
                   @ [CHR 0x27] @ ''.'')), r)
      | Some a \<Rightarrow>
          let tool = objs r ! a in
          if scope tool = BUILTIN
          then (Inl (PermissionError ''Cannot edit built-in tools.''), r)
          else if scope tool = PRIVATE \<and> created_by_agent_id tool \<noteq> Some requesting_agent_id
          then (Inl (PermissionError ''Cannot edit another agent's private tool.''), r)
          else
            let old_name = td_name tool;
                tool1 = apply_updates u tool;
                tool2 = tool1\<lparr>version := version tool1 + 1\<rparr>;
                r1 = r\<lparr>objs := (objs r)[a := tool2]\<rparr>
            in if u_name u \<noteq> None \<and> u_name u \<noteq> Some old_name
               then
                 if \<not> dict_has (tools_by_name r1) old_name
                 then (Inl (KeyError old_name), r1)
                 else
                   let r2 = r1\<lparr>tools_by_name :=
                              dict_set (dict_del (tools_by_name r1) old_name) (td_name tool2) a\<rparr>;
                       r3 = (case dict_get (handlers r2) old_name of
                               None \<Rightarrow> r2
                             | Some h \<Rightarrow> r2\<lparr>handlers :=
                                 dict_set (dict_del (handlers r2) old_name) (td_name tool2) h\<rparr>)
                   in (Inr tool2, rebuild_handler u a r3)
               else (Inr tool2, rebuild_handler u a r1))"

definition delete :: "ToolRegistry \<Rightarrow> string \<Rightarrow> string \<Rightarrow> (error + string) \<times> ToolRegistry" where
  "delete r tool_id requesting_agent_id =
     (case dict_get (tools r) tool_id of
        None \<Rightarrow> (Inl (ValueError (''No tool found with id '' @ [CHR 0x27] @ tool_id
                   @ [CHR 0x27] @ ''.'')), r)
      | Some a \<Rightarrow>
          let tool = objs r ! a in
          if scope tool = BUILTIN
          then (Inl (PermissionError ''Cannot delete built-in tools.''), r)
          else if scope tool = PRIVATE \<and> created_by_agent_id tool \<noteq> Some requesting_agent_id
          then (Inl (PermissionError ''Cannot delete another agent's private tool.''), r)
          else
            let name = td_name tool;
                r1 = r\<lparr>tools := dict_del (tools r) tool_id\<rparr>
            in if \<not> dict_has (tools_by_name r1) name
               then (Inl (KeyError name), r1)
               else
                 let r2 = r1\<lparr>tools_by_name := dict_del (tools_by_name r1) name\<rparr>;
                     r3 = (if dict_has (handlers r2) name
                           then r2\<lparr>handlers := dict_del (handlers r2) name\<rparr> else r2)
                 in (Inr name, r3))"

definition get :: "ToolRegistry \<Rightarrow> string \<Rightarrow> ToolDefinition option" where
  "get r tool_id = map_option (\<lambda>a. objs r ! a) (dict_get (tools r) tool_id)"

definition get_by_name :: "ToolRegistry \<Rightarrow> string \<Rightarrow> ToolDefinition option" where
  "get_by_name r name = map_option (\<lambda>a. objs r ! a) (dict_get (tools_by_name r) name)"

definition get_all_tools :: "ToolRegistry \<Rightarrow> ToolDefinition list" where
  "get_all_tools r = map (\<lambda>a. objs r ! a) (dict_values (tools r))"

definition get_builtin_tools :: "ToolRegistry \<Rightarrow> ToolDefinition list" where
  "get_builtin_tools r = filter (\<lambda>t. scope t = BUILTIN) (get_all_tools r)"

definition get_shared_tools :: "ToolRegistry \<Rightarrow> ToolDefinition list" where
  "get_shared_tools r = filter (\<lambda>t. scope t = SHARED) (get_all_tools r)"


text \<open>
  \<^verbatim>\<open>execute\<close>. A handler is a coroutine over the whole civilization (it receives the agent,
  and through it every component), so the state here is any type \<open>'s\<close> that holds the
  registry (\<open>reg\<close> reads it, \<open>put\<close> writes it back) and \<open>run\<close> is the bound handler's
  effect: \<open>Inl e\<close> when it raises \<open>e\<close>, \<open>Inr s\<close> when it returns \<open>s\<close>. The part after the
  \<^verbatim>\<open>try\<close> block is \<open>record_execution\<close>; \<open>dur\<close> and \<open>now\<close> are the clock readings.
\<close>

definition record_execution :: "ToolRegistry \<Rightarrow> string \<Rightarrow> json \<Rightarrow> string \<Rightarrow> error + string
    \<Rightarrow> nat \<Rightarrow> datetime \<Rightarrow> (error + string) \<times> ToolRegistry" where
  "record_execution r name tool_input aid outcome dur now =
     (let result = (case outcome of Inr s \<Rightarrow> s | Inl e \<Rightarrow> str e);
          ok = (case outcome of Inr _ \<Rightarrow> True | Inl _ \<Rightarrow> False);
          rec = \<lparr>tool_name = name, agent_id = aid, input_params = tool_input,
                  rec_output = take 1000 result, success = ok, duration_ms = dur,
                  timestamp = now\<rparr>;
          r1 = r\<lparr>execution_log := execution_log r @ [rec]\<rparr>;
          r2 = (case dict_get (tools_by_name r1) name of
                  None \<Rightarrow> r1
                | Some a \<Rightarrow> r1\<lparr>objs := (objs r1)
                    [a := (objs r1 ! a)\<lparr>usage_count := usage_count (objs r1 ! a) + 1\<rparr>]\<rparr>)
      in (if \<not> ok then Inl (RuntimeError result) else Inr result, r2))"

definition no_handler :: "string \<Rightarrow> error" where
  "no_handler name =
     ValueError (''No handler registered for tool '' @ [CHR 0x27] @ name @ [CHR 0x27] @ ''.'')"

definition execute :: "('s \<Rightarrow> ToolRegistry) \<Rightarrow> ('s \<Rightarrow> ToolRegistry \<Rightarrow> 's) \<Rightarrow> 's \<Rightarrow> string
    \<Rightarrow> json \<Rightarrow> string \<Rightarrow> (handler \<Rightarrow> 's \<Rightarrow> (error + string) \<times> 's) \<Rightarrow> nat \<Rightarrow> datetime
    \<Rightarrow> (error + string) \<times> 's" where
  "execute reg put s name tool_input aid run dur now =
     (case dict_get (handlers (reg s)) name of
        None \<Rightarrow> (Inl (no_handler name), s)
      | Some h \<Rightarrow>
          (case run h s of
             (outcome, s1) \<Rightarrow>
               (case record_execution (reg s1) name tool_input aid outcome dur now of
                  (res, r2) \<Rightarrow> (res, put s1 r2))))"

text \<open>\<^verbatim>\<open>Agent._execute_tool\<close>, given what \<^verbatim>\<open>execute\<close> did: always a \<^verbatim>\<open>tool_result\<close> block.\<close>

definition tool_result_of :: "string \<Rightarrow> string \<Rightarrow> error + string \<Rightarrow> tool_result" where
  "tool_result_of name use_id res =
     (case res of
        Inr result \<Rightarrow> \<lparr>tool_use_id = use_id, tr_content = result, is_error = False\<rparr>
      | Inl e \<Rightarrow> \<lparr>tool_use_id = use_id,
                  tr_content = ''Error executing tool '' @ [CHR 0x27] @ name @ [CHR 0x27]
                    @ '': '' @ str e,
                  is_error = True\<rparr>)"

section \<open>Text formatting\<close>

fun join :: "string \<Rightarrow> string list \<Rightarrow> string" where
  "join sep [] = []"
| "join sep [x] = x"
| "join sep (x # y # ys) = x @ sep @ join sep (y # ys)"

definition digit_char :: "nat \<Rightarrow> char" where
  "digit_char n = ''0123456789'' ! n"

function str_nat :: "nat \<Rightarrow> string" where
  "str_nat n = (if n < 10 then [digit_char n] else str_nat (n div 10) @ [digit_char (n mod 10)])"
  by pat_completeness auto
termination
  by (relation "measure id") auto

definition str_int :: "int \<Rightarrow> string" where
  "str_int i = (if i < 0 then ''-'' @ str_nat (nat (- i)) else str_nat (nat i))"

definition quoted :: "string \<Rightarrow> string" where
  "quoted s = [CHR 0x27] @ s @ [CHR 0x27]"

text \<open>
  \<^verbatim>\<open>input["key"]\<close> on a tool input: \<^verbatim>\<open>KeyError\<close> when the key is absent. The handlers
  modelled below read only fields that their \<^verbatim>\<open>input_schema\<close> declares as strings; a value
  of another JSON type in such a field is outside the model and is reported as an error.
\<close>

definition field_str :: "json \<Rightarrow> string \<Rightarrow> error + string" where
  "field_str inp k =
     (case inp of
        JDict d \<Rightarrow> (case map_of d k of
                      None \<Rightarrow> Inl (KeyError k)
                    | Some (JStr s) \<Rightarrow> Inr s
                    | Some _ \<Rightarrow> Inl (ValueError k))
      | _ \<Rightarrow> Inl (KeyError k))"

section \<open>Agents and the civilization (core/agent.py, core/civilization.py)\<close>

datatype AgentStatus = IDLE | THINKING | EXECUTING_TOOL | WAITING_FOR_SUBAGENT | ERROR

record AgentState =
  st_id :: string
  st_name :: string
  st_role :: string
  system_prompt_base :: string
  status :: AgentStatus
  st_created_at :: datetime
  st_created_by :: "string option"
  depth :: int
  tool_ids :: "string list"
  memory :: agent_memory
  total_api_calls :: int
  total_tokens_used :: int
  total_tools_created :: int
  total_agents_created :: int

record Agent =
  state :: AgentState
  delegation_chain :: "string list"

record Alliance =
  al_id :: string
  al_name :: string
  purpose :: string
  agent_ids :: "string list"
  shared_context :: string
  shared_memory :: "(string \<times> string) list"
  al_created_at :: datetime
  al_created_by :: string

text \<open>An event of the bus, without the identifier and the clock reading it is stamped with.\<close>

record CivilizationEvent =
  event_type :: string
  data :: json

text \<open>The fields of \<^verbatim>\<open>AIvilizationConfig\<close> (config.py) that the core reads.\<close>

record AIvilizationConfig =
  max_tokens_per_turn :: int
  max_agent_depth :: int
  max_agents :: int
  max_loop_iterations :: int

record CivilizationState =
  cs_id :: string
  cs_name :: string
  cs_created_at :: datetime
  primary_agent_id :: "string option"
  agent_states :: "(string \<times> AgentState) list"
  tool_definitions :: "ToolDefinition list"
  alliances :: "Alliance list"
  creation_graph :: "(string \<times> string list) list"
  snapshot_tags :: "(string \<times> string) list"
  metadata :: json

text \<open>
  The orchestrator: \<open>agents\<close> is \<^verbatim>\<open>_agents\<close>, \<open>c_alliances\<close> is \<^verbatim>\<open>_alliances\<close>, \<open>c_state\<close> is
  \<^verbatim>\<open>_state\<close>, \<open>events\<close> is the history of the event bus. Agent objects are reached through
  their key in \<open>agents\<close>. The entries of \<open>agent_states\<close> are copies; the source reads them
  only in \<^verbatim>\<open>save\<close>, after refreshing the entry of every agent, and in \<^verbatim>\<open>load\<close>.
\<close>

record Civilization =
  config :: AIvilizationConfig
  tool_registry :: ToolRegistry
  events :: "CivilizationEvent list"
  agents :: "(string \<times> Agent) list"
  c_alliances :: "(string \<times> Alliance) list"
  c_state :: CivilizationState

definition emit :: "Civilization \<Rightarrow> string \<Rightarrow> json \<Rightarrow> Civilization" where
  "emit civ ty d =
     (let h = events civ @ [\<lparr>event_type = ty, data = d\<rparr>]
      in civ\<lparr>events := (if length h > 1000 then py_slice_from (- 1000) h else h)\<rparr>)"

definition get_agent :: "Civilization \<Rightarrow> string \<Rightarrow> Agent option" where
  "get_agent civ aid = dict_get (agents civ) aid"

definition get_all_agents :: "Civilization \<Rightarrow> Agent list" where
  "get_all_agents civ = dict_values (agents civ)"

text \<open>In-place mutation of the agent object stored under a key, and of its state.\<close>

definition upd_agent :: "Civilization \<Rightarrow> string \<Rightarrow> (Agent \<Rightarrow> Agent) \<Rightarrow> Civilization" where
  "upd_agent civ aid f =
     civ\<lparr>agents := map (\<lambda>(k, a). if k = aid then (k, f a) else (k, a)) (agents civ)\<rparr>"

definition upd_state :: "Civilization \<Rightarrow> string \<Rightarrow> (AgentState \<Rightarrow> AgentState) \<Rightarrow> Civilization" where
  "upd_state civ aid f = upd_agent civ aid (\<lambda>a. a\<lparr>state := f (state a)\<rparr>)"

definition json_opt :: "string option \<Rightarrow> json" where
  "json_opt s = (case s of None \<Rightarrow> JNull | Some x \<Rightarrow> JStr x)"

definition graph_add :: "(string \<times> string list) list \<Rightarrow> string \<Rightarrow> string
    \<Rightarrow> (string \<times> string list) list" where
  "graph_add g parent child =
     (case dict_get g parent of
        None \<Rightarrow> dict_set g parent [child]
      | Some cs \<Rightarrow> dict_set g parent (cs @ [child]))"

text \<open>
  \<^verbatim>\<open>Civilization.create_agent\<close>; \<open>new_id\<close> is the identifier drawn by \<^verbatim>\<open>uuid4\<close>, \<open>now\<close> the
  clock reading.
\<close>

definition create_agent :: "Civilization \<Rightarrow> string \<Rightarrow> string \<Rightarrow> string \<Rightarrow> string option \<Rightarrow> int
    \<Rightarrow> string \<Rightarrow> datetime \<Rightarrow> Agent \<times> Civilization" where
  "create_agent civ name role_text prompt created_by d new_id now =
     (let st = \<lparr>st_id = new_id, st_name = name, st_role = role_text,
                 system_prompt_base = prompt, status = IDLE, st_created_at = now,
                 st_created_by = created_by, depth = d, tool_ids = [],
                 memory = AgentMemory, total_api_calls = 0, total_tokens_used = 0,
                 total_tools_created = 0, total_agents_created = 0\<rparr>;
          agent = \<lparr>state = st, delegation_chain = []\<rparr>;
          civ1 = civ\<lparr>agents := dict_set (agents civ) new_id agent,
                     c_state := (c_state civ)
                       \<lparr>agent_states := dict_set (agent_states (c_state civ)) new_id st\<rparr>\<rparr>;
          civ2 = (case created_by of
                    None \<Rightarrow> civ1
                  | Some cb \<Rightarrow>
                      if cb = [] then civ1
                      else civ1\<lparr>c_state := (c_state civ1)
                             \<lparr>creation_graph := graph_add (creation_graph (c_state civ1)) cb new_id\<rparr>\<rparr>);
          civ3 = (if primary_agent_id (c_state civ2) = None
                  then civ2\<lparr>c_state := (c_state civ2)\<lparr>primary_agent_id := Some new_id\<rparr>\<rparr>
                  else civ2)
      in (agent, emit civ3 ''agent_created''
            (JDict [(''agent_id'', JStr new_id), (''name'', JStr name),
                    (''role'', JStr role_text), (''created_by'', json_opt created_by)])))"

definition create_alliance :: "Civilization \<Rightarrow> string \<Rightarrow> string list \<Rightarrow> string \<Rightarrow> string \<Rightarrow> string
    \<Rightarrow> string \<Rightarrow> datetime \<Rightarrow> Alliance \<times> Civilization" where
  "create_alliance civ name ids purpose_text ctx created_by new_id now =
     (let alliance = \<lparr>al_id = new_id, al_name = name, purpose = purpose_text,
                       agent_ids = ids, shared_context = ctx, shared_memory = [],
                       al_created_at = now, al_created_by = created_by\<rparr>;
          civ1 = civ\<lparr>c_alliances := dict_set (c_alliances civ) new_id alliance\<rparr>
      in (alliance, emit civ1 ''alliance_formed''
            (JDict [(''alliance_id'', JStr new_id), (''name'', JStr name),
                    (''agent_ids'', JList (map JStr ids)), (''purpose'', JStr purpose_text)])))"

section \<open>The built-in handlers create_agent and delegate_task (tools/builtin.py)\<close>

text \<open>
  A handler receives the calling agent object; here it receives the agent's key \<open>aid\<close>
  and reads the object from the civilization. The branch for a key without an object has
  no counterpart in the source.
\<close>

definition no_such_agent :: error where
  "no_such_agent = RuntimeError ''agent object not in the civilization''"

definition execute_create_agent :: "Civilization \<Rightarrow> string \<Rightarrow> json \<Rightarrow> string \<Rightarrow> datetime
    \<Rightarrow> (error + string) \<times> Civilization" where
  "execute_create_agent civ aid inp new_id now =
     (case get_agent civ aid of
        None \<Rightarrow> (Inl no_such_agent, civ)
      | Some agent \<Rightarrow>
          if int (length (agents civ)) \<ge> max_agents (config civ)
          then (Inr (''Error: civilization has reached the maximum of ''
                  @ str_int (max_agents (config civ)) @ '' agents.''), civ)
          else if depth (state agent) \<ge> max_agent_depth (config civ)
          then (Inr (''Error: maximum agent nesting depth (''
                  @ str_int (max_agent_depth (config civ)) @ '') reached.''), civ)
          else
            (case field_str inp ''name'' of
               Inl e \<Rightarrow> (Inl e, civ)
             | Inr name \<Rightarrow>
            (case field_str inp ''role'' of
               Inl e \<Rightarrow> (Inl e, civ)
             | Inr role_text \<Rightarrow>
            (case field_str inp ''system_prompt'' of
               Inl e \<Rightarrow> (Inl e, civ)
             | Inr prompt \<Rightarrow>
                 (case create_agent civ name role_text prompt (Some (st_id (state agent)))
                         (depth (state agent) + 1) new_id now of
                    (new_agent, civ1) \<Rightarrow>
                      (Inr (''Successfully created agent '' @ quoted (st_name (state new_agent))
                          @ '' (id: '' @ st_id (state new_agent) @ ''). ''
                          @ ''You can now delegate tasks to it using delegate_task.''),
                       upd_state civ1 aid
                         (\<lambda>s. s\<lparr>total_agents_created := total_agents_created s + 1\<rparr>)))))))"

section \<open>The decision loop and delegation (core/agent.py, tools/builtin.py)\<close>

text \<open>
  The inference service and the environment are scripted. A \<open>script\<close> is what the client
  answers to the successive calls of one \<^verbatim>\<open>process_message\<close> run: \<open>Fail e\<close> when
  \<^verbatim>\<open>create_message\<close> raises \<open>e\<close>, and otherwise a reply with its content blocks, stop
  reason and token counts, followed by the script of the later calls (not consulted after
  a final reply). The content is a list of text blocks and tool invocations. Each
  invocation (identifier, tool name, input) carries what its execution meets: the script
  of the agent it delegates to, the identifier and clock reading a creation draws, the
  measured duration, and, for the handlers not modelled here, their effect on the
  civilization.
\<close>

datatype script = Fail error | Reply calls string nat nat script
and calls = CNil | CText string calls
  | CTool string string json script string datetime nat
      "Civilization \<Rightarrow> (error + string) \<times> Civilization" calls

fun blocks_of :: "calls \<Rightarrow> block list" where
  "blocks_of CNil = []"
| "blocks_of (CText t rest) = TextBlock t # blocks_of rest"
| "blocks_of (CTool use_id name inp sub new_id now dur eff rest) =
     ToolUseBlock use_id name inp # blocks_of rest"

fun block_texts :: "block list \<Rightarrow> string list" where
  "block_texts [] = []"
| "block_texts (TextBlock t # bs) = (if t \<noteq> [] then t # block_texts bs else block_texts bs)"
| "block_texts (ToolUseBlock _ _ _ # bs) = block_texts bs"

definition extract_text :: "block list \<Rightarrow> string" where
  "extract_text bs = join [CHR 0x0A] (block_texts bs)"

definition history_of :: "Civilization \<Rightarrow> string \<Rightarrow> turn list" where
  "history_of civ aid =
     (case get_agent civ aid of
        None \<Rightarrow> []
      | Some a \<Rightarrow> conversation_history (memory (state a)))"

definition remember :: "Civilization \<Rightarrow> string \<Rightarrow> string \<Rightarrow> content \<Rightarrow> Civilization" where
  "remember civ aid r c =
     upd_state civ aid (\<lambda>s. s\<lparr>memory := add_conversation_turn (memory s) r c\<rparr>)"

definition responded :: "Civilization \<Rightarrow> string \<Rightarrow> string \<Rightarrow> int \<Rightarrow> Civilization" where
  "responded civ aid final_text iteration_count =
     (case get_agent civ aid of
        None \<Rightarrow> civ
      | Some a \<Rightarrow> emit civ ''agent_responded''
          (JDict [(''agent_id'', JStr (st_id (state a))),
                  (''agent_name'', JStr (st_name (state a))),
                  (''message_preview'', JStr (take 200 final_text)),
                  (''iteration_count'', JInt iteration_count)]))"

definition no_agent_found :: "Civilization \<Rightarrow> string \<Rightarrow> string \<Rightarrow> string" where
  "no_agent_found civ own_id target_id =
     ''Error: no agent found with id '' @ quoted target_id @ ''. Available agents: ''
     @ join '', ''
         (map (\<lambda>a. quoted (st_name (state a)) @ '' (id: '' @ st_id (state a) @ '')'')
            (filter (\<lambda>a. st_id (state a) \<noteq> own_id) (get_all_agents civ)))"

definition cycle_detected :: "string list \<Rightarrow> string \<Rightarrow> string" where
  "cycle_detected chain target_id =
     ''Error: delegation cycle detected. Chain: '' @ join '' -> '' chain @ '' -> '' @ target_id"

definition delegated_msg :: "Agent \<Rightarrow> string \<Rightarrow> string" where
  "delegated_msg agent message =
     ''[Task delegated from '' @ quoted (st_name (state agent)) @ '' (id: ''
     @ st_id (state agent) @ '')]'' @ [CHR 0x0A, CHR 0x0A] @ message"

definition response_from :: "Civilization \<Rightarrow> string \<Rightarrow> string \<Rightarrow> string" where
  "response_from civ target_id response =
     (case get_agent civ target_id of
        None \<Rightarrow> response
      | Some t \<Rightarrow> ''Response from '' @ quoted (st_name (state t)) @ '':'' @ [CHR 0x0A] @ response)"

text \<open>
  The recursion runs over the script. Each source function that (directly or not) calls
  back into the loop is first written with its callee as a parameter: \<open>lp\<close> is the loop of
  the run, \<open>pm\<close> the \<^verbatim>\<open>process_message\<close> of a delegation target. \<open>loop\<close> and \<open>run_calls\<close> then
  close the recursion, and the source's names are defined from them.

  \<open>process_message_with\<close> is \<^verbatim>\<open>Agent.process_message\<close> around its \<^verbatim>\<open>for\<close> loop. The loop
  takes the \<^verbatim>\<open>messages\<close> list, the iterations left and the index of the current one, and
  returns the final text, the iteration count of the audit event and \<^verbatim>\<open>messages\<close>.
\<close>

type_synonym loop_result = "(error + string \<times> int \<times> turn list) \<times> Civilization"

definition process_message_with :: "(Civilization \<Rightarrow> string \<Rightarrow> turn list \<Rightarrow> nat \<Rightarrow> nat \<Rightarrow> loop_result)
    \<Rightarrow> Civilization \<Rightarrow> string \<Rightarrow> string \<Rightarrow> (error + string) \<times> Civilization" where
  "process_message_with lp civ aid user_message =
     (case get_agent civ aid of
        None \<Rightarrow> (Inl no_such_agent, civ)
      | Some _ \<Rightarrow>
          let civ1 = remember civ aid ''user'' (TextContent user_message) in
          (case lp civ1 aid (history_of civ1 aid)
                  (nat (max_loop_iterations (config civ1))) 0 of
             (Inl e, civ2) \<Rightarrow> (Inl e, civ2)
           | (Inr (final_text, iteration_count, messages), civ2) \<Rightarrow>
               (Inr final_text,
                responded (upd_state civ2 aid (\<lambda>s. s\<lparr>status := IDLE\<rparr>)) aid
                  final_text iteration_count)))"

definition execute_delegate_task_with :: "(Civilization \<Rightarrow> string \<Rightarrow> string
      \<Rightarrow> (error + string) \<times> Civilization)
    \<Rightarrow> Civilization \<Rightarrow> string \<Rightarrow> json \<Rightarrow> (error + string) \<times> Civilization" where
  "execute_delegate_task_with pm civ aid inp =
     (case get_agent civ aid of
        None \<Rightarrow> (Inl no_such_agent, civ)
      | Some agent \<Rightarrow>
     (case field_str inp ''agent_id'' of
        Inl e \<Rightarrow> (Inl e, civ)
      | Inr target_id \<Rightarrow>
     (case field_str inp ''message'' of
        Inl e \<Rightarrow> (Inl e, civ)
      | Inr message \<Rightarrow>
     (case get_agent civ target_id of
        None \<Rightarrow> (Inr (no_agent_found civ (st_id (state agent)) target_id), civ)
      | Some target \<Rightarrow>
          if target_id \<in> set (delegation_chain agent)
          then (Inr (cycle_detected (delegation_chain agent) target_id), civ)
          else
            (case pm (upd_agent civ target_id
                        (\<lambda>t. t\<lparr>delegation_chain :=
                                 delegation_chain agent @ [st_id (state agent)]\<rparr>))
                    target_id (delegated_msg agent message) of
               (res, civ2) \<Rightarrow>
                 (let civ3 = upd_agent civ2 target_id (\<lambda>t. t\<lparr>delegation_chain := []\<rparr>)
                  in (case res of
                        Inl e \<Rightarrow> (Inl e, civ3)
                      | Inr response \<Rightarrow> (Inr (response_from civ3 target_id response), civ3))))))))"

text \<open>
  The handler bound to a name: the two built-ins above from the source, any other one
  through the effect \<open>eff\<close> that the script gives for the invocation.
\<close>

definition run_handler_with :: "(Civilization \<Rightarrow> string \<Rightarrow> string \<Rightarrow> (error + string) \<times> Civilization)
    \<Rightarrow> json \<Rightarrow> string \<Rightarrow> datetime \<Rightarrow> (Civilization \<Rightarrow> (error + string) \<times> Civilization)
    \<Rightarrow> string \<Rightarrow> handler \<Rightarrow> Civilization \<Rightarrow> (error + string) \<times> Civilization" where
  "run_handler_with pm inp new_id now eff aid h civ =
     (if h = BuiltinHandler ''delegate_task'' then execute_delegate_task_with pm civ aid inp
      else if h = BuiltinHandler ''create_agent'' then execute_create_agent civ aid inp new_id now
      else eff civ)"

text \<open>
  \<^verbatim>\<open>Agent._execute_tool\<close>: the call of \<^verbatim>\<open>ToolRegistry.execute\<close> on the civilization's registry
  and the conversion of its outcome into a \<^verbatim>\<open>tool_result\<close> block.
\<close>

definition agent_id_of :: "Civilization \<Rightarrow> string \<Rightarrow> string" where
  "agent_id_of civ aid = (case get_agent civ aid of None \<Rightarrow> aid | Some a \<Rightarrow> st_id (state a))"

definition execute_tool :: "Civilization \<Rightarrow> string \<Rightarrow> string \<Rightarrow> json \<Rightarrow> string
    \<Rightarrow> (handler \<Rightarrow> Civilization \<Rightarrow> (error + string) \<times> Civilization) \<Rightarrow> nat \<Rightarrow> datetime
    \<Rightarrow> tool_result \<times> Civilization" where
  "execute_tool civ aid name inp use_id run dur now =
     (case execute tool_registry (\<lambda>c r. c\<lparr>tool_registry := r\<rparr>) civ name inp
             (agent_id_of civ aid) run dur now of
        (res, civ1) \<Rightarrow> (tool_result_of name use_id res, civ1))"

primrec loop :: "script \<Rightarrow> Civilization \<Rightarrow> string \<Rightarrow> turn list \<Rightarrow> nat \<Rightarrow> nat \<Rightarrow> loop_result"
and run_calls :: "calls \<Rightarrow> Civilization \<Rightarrow> string \<Rightarrow> tool_result list \<times> Civilization"
where
  "loop (Fail e) civ aid messages n i =
     (case n of
        0 \<Rightarrow> (Inr ([], if i = 0 then 1 else int i, messages), civ)
      | Suc m \<Rightarrow> (Inl e, upd_state civ aid (\<lambda>s. s\<lparr>status := THINKING\<rparr>)))"
| "loop (Reply cs stop_reason tin tout next) civ aid messages n i =
     (case n of
        0 \<Rightarrow> (Inr ([], if i = 0 then 1 else int i, messages), civ)
      | Suc m \<Rightarrow>
          let civ1 = upd_state civ aid (\<lambda>s. s\<lparr>status := THINKING\<rparr>);
              civ2 = upd_state civ1 aid
                       (\<lambda>s. s\<lparr>total_api_calls := total_api_calls s + 1,
                               total_tokens_used := total_tokens_used s + (int tin + int tout)\<rparr>);
              civ3 = remember civ2 aid ''assistant'' (AssistantBlocks (blocks_of cs));
              messages1 = messages
                @ [\<lparr>role = ''assistant'', content = AssistantBlocks (blocks_of cs)\<rparr>]
          in if stop_reason \<noteq> ''tool_use''
             then (Inr (extract_text (blocks_of cs), int i + 1, messages1), civ3)
             else
               (case run_calls cs (upd_state civ3 aid (\<lambda>s. s\<lparr>status := EXECUTING_TOOL\<rparr>)) aid of
                  (tool_results, civ4) \<Rightarrow>
                    loop next (remember civ4 aid ''user'' (ToolResults tool_results)) aid
                      (messages1 @ [\<lparr>role = ''user'', content = ToolResults tool_results\<rparr>])
                      m (Suc i)))"
| "run_calls CNil civ aid = ([], civ)"
| "run_calls (CText t rest) civ aid = run_calls rest civ aid"
| "run_calls (CTool use_id name inp sub new_id now dur eff rest) civ aid =
     (case execute_tool civ aid name inp use_id
             (run_handler_with (process_message_with (loop sub)) inp new_id now eff aid)
             dur now of
        (res, civ2) \<Rightarrow>
          (case run_calls rest civ2 aid of
             (results, civ3) \<Rightarrow> (res # results, civ3)))"

definition process_message :: "Civilization \<Rightarrow> string \<Rightarrow> string \<Rightarrow> script
    \<Rightarrow> (error + string) \<times> Civilization" where
  "process_message civ aid user_message sc = process_message_with (loop sc) civ aid user_message"

definition execute_delegate_task :: "Civilization \<Rightarrow> string \<Rightarrow> json \<Rightarrow> script
    \<Rightarrow> (error + string) \<times> Civilization" where
  "execute_delegate_task civ aid inp sub =
     execute_delegate_task_with (\<lambda>c t m. process_message c t m sub) civ aid inp"

section \<open>Outcome tests and example states\<close>

definition is_permission_error :: "error + 'a \<Rightarrow> bool" where
  "is_permission_error res = (case res of Inl (PermissionError _) \<Rightarrow> True | _ \<Rightarrow> False)"

definition succeeded :: "error + 'a \<Rightarrow> bool" where
  "succeeded res = (case res of Inl _ \<Rightarrow> False | Inr _ \<Rightarrow> True)"

text \<open>
  A registry as the constructor leaves it (ten built-ins), then a shared tool \<open>alpha\<close>
  created by \<open>agent-1\<close> and a private tool \<open>beta\<close> created by \<open>agent-2\<close>.
\<close>

definition example_ids :: "string list" where
  "example_ids = [''b0'', ''b1'', ''b2'', ''b3'', ''b4'', ''b5'', ''b6'', ''b7'', ''b8'', ''b9'']"

definition example_tool :: "string \<Rightarrow> string \<Rightarrow> ToolScope \<Rightarrow> string option \<Rightarrow> ToolDefinition" where
  "example_tool i n sc owner =
     (new_tool i n ''d'' (JDict []) sc 0)\<lparr>created_by_agent_id := owner\<rparr>"

definition fresh_registry :: ToolRegistry where
  "fresh_registry = ToolRegistry_init example_ids (\<lambda>_. []) (\<lambda>_. JDict []) 0"

definition example_registry :: ToolRegistry where
  "example_registry =
     snd (register
       (snd (register fresh_registry (example_tool ''t1'' ''alpha'' SHARED (Some ''agent-1''))))
       (example_tool ''t2'' ''beta'' PRIVATE (Some ''agent-2'')))"

text \<open>
  The example registry after \<open>agent-2\<close> has renamed its tool \<open>beta\<close> to \<open>alpha\<close> and then
  deleted it: the shared tool \<open>alpha\<close> of \<open>agent-1\<close> is still stored under its identifier,
  and the name index has no entry \<open>alpha\<close>. Then after \<open>agent-1\<close> has given that tool a
  source: a handler is bound under \<open>alpha\<close>.
\<close>

definition renamed_registry :: ToolRegistry where
  "renamed_registry =
     snd (update example_registry ''t2'' (no_updates\<lparr>u_name := Some ''alpha''\<rparr>) ''agent-2'')"

definition orphaned_registry :: ToolRegistry where
  "orphaned_registry = snd (delete renamed_registry ''t2'' ''agent-2'')"

definition unindexed_registry :: ToolRegistry where
  "unindexed_registry =
     snd (update orphaned_registry ''t1''
            (no_updates\<lparr>u_source_code := Some (Some ''print(1)'')\<rparr>) ''agent-1'')"


text \<open>
  The state in which the tool invocations of a reply start: status and usage counters
  updated, the assistant turn remembered.
\<close>

definition tools_start :: "Civilization \<Rightarrow> string \<Rightarrow> calls \<Rightarrow> nat \<Rightarrow> nat \<Rightarrow> Civilization" where
  "tools_start civ aid cs tin tout =
     upd_state
       (remember
          (upd_state (upd_state civ aid (\<lambda>s. s\<lparr>status := THINKING\<rparr>)) aid
             (\<lambda>s. s\<lparr>total_api_calls := total_api_calls s + 1,
                     total_tokens_used := total_tokens_used s + (int tin + int tout)\<rparr>))
          aid ''assistant'' (AssistantBlocks (blocks_of cs)))
       aid (\<lambda>s. s\<lparr>status := EXECUTING_TOOL\<rparr>)"



text \<open>
  \<^verbatim>\<open>Civilization.__init__\<close>: the given configuration, a new registry and event bus, no
  agents; \<open>civ_id\<close> is the identifier drawn for the aggregate state.
\<close>

definition Civilization_init :: "AIvilizationConfig \<Rightarrow> string \<Rightarrow> string list \<Rightarrow> (string \<Rightarrow> string)
    \<Rightarrow> (string \<Rightarrow> json) \<Rightarrow> string \<Rightarrow> datetime \<Rightarrow> Civilization" where
  "Civilization_init cfg name ids descr schema civ_id now =
     \<lparr>config = cfg,
      tool_registry = ToolRegistry_init ids descr schema now,
      events = [], agents = [], c_alliances = [],
      c_state = \<lparr>cs_id = civ_id, cs_name = name, cs_created_at = now,
                  primary_agent_id = None, agent_states = [], tool_definitions = [],
                  alliances = [], creation_graph = [], snapshot_tags = [],
                  metadata = JDict []\<rparr>\<rparr>"

text \<open>The defaults of config.py.\<close>

definition default_config :: AIvilizationConfig where
  "default_config = \<lparr>max_tokens_per_turn = 4096, max_agent_depth = 10, max_agents = 50,
     max_loop_iterations = 20\<rparr>"

text \<open>
  Example civilizations: empty, then with a primary agent \<open>A\<close> created as the command-line
  front end does (no creator, depth 0), then with a second agent \<open>B\<close> created the same way.
\<close>

definition civ_empty :: Civilization where
  "civ_empty = Civilization_init default_config ''Test'' example_ids (\<lambda>_. []) (\<lambda>_. JDict [])
     ''civ-1'' 0"

definition civ_A :: Civilization where
  "civ_A = snd (create_agent civ_empty ''Alice'' ''coordinator'' ''prompt'' None 0 ''A'' 0)"

definition civ_AB :: Civilization where
  "civ_AB = snd (create_agent civ_A ''Bob'' ''helper'' ''prompt'' None 0 ''B'' 0)"







text \<open>
  Scripted runs of delegation. \<open>delegate_input\<close> is the input of a \<^verbatim>\<open>delegate_task\<close>
  invocation. In \<open>script_back_to t\<close> the first reply invokes \<^verbatim>\<open>delegate_task\<close> with target
  \<open>t\<close> (whose loop, if entered, would answer \<open>entered\<close>) and the second reply is final.
\<close>

definition delegate_input :: "string \<Rightarrow> string \<Rightarrow> json" where
  "delegate_input target_id message =
     JDict [(''agent_id'', JStr target_id), (''message'', JStr message)]"

definition no_effect :: "Civilization \<Rightarrow> (error + string) \<times> Civilization" where
  "no_effect c = (Inr [], c)"

definition final_reply :: "string \<Rightarrow> script" where
  "final_reply t = Reply (CText t CNil) ''end_turn'' 1 1 (Fail (RuntimeError []))"

definition script_back_to :: "string \<Rightarrow> script" where
  "script_back_to t =
     Reply (CTool ''u2'' ''delegate_task'' (delegate_input t ''back to you'')
              (final_reply ''entered'') [] 0 0 no_effect CNil)
       ''tool_use'' 1 1 (final_reply ''done'')"

section \<open>Sandbox file operations (core/sandbox.py)\<close>

text \<open>
  The container is an external collaborator. Its file system is taken as a table from
  resolved locations to file contents, where a location is the list of the path's
  components after the resolution the container's kernel performs on an absolute path
  without symbolic links: empty components and \<open>.\<close> are dropped, \<open>..\<close> steps to the parent
  (and stays at the root). Directories and the archive encoding are not modelled. Each
  agent has its own container, created from the base image on first use.
\<close>

type_synonym filesystem = "(string list \<times> string) list"

record SandboxManager =
  containers :: "(string \<times> filesystem) list"
  base_image :: filesystem

fun split_on :: "char \<Rightarrow> string \<Rightarrow> string list" where
  "split_on c [] = [[]]"
| "split_on c (x # xs) =
     (if x = c then [] # split_on c xs
      else (case split_on c xs of
              [] \<Rightarrow> [[x]]
            | w # ws \<Rightarrow> (x # w) # ws))"

fun walk :: "string list \<Rightarrow> string list \<Rightarrow> string list" where
  "walk [] here = rev here"
| "walk (c # cs) here =
     (if c = [] \<or> c = ''.'' then walk cs here
      else if c = ''..'' then walk cs (tl here)
      else walk cs (c # here))"

definition resolve :: "string \<Rightarrow> string list" where
  "resolve path = walk (split_on CHR ''/'' path) []"

definition inside_root :: "string list \<Rightarrow> bool" where
  "inside_root loc = (take 1 loc = [''workspace''])"

definition startswith :: "string \<Rightarrow> string \<Rightarrow> bool" where
  "startswith s p = (take (length p) s = p)"

definition get_container :: "SandboxManager \<Rightarrow> string \<Rightarrow> filesystem \<times> SandboxManager" where
  "get_container sm aid =
     (case dict_get (containers sm) aid of
        Some fs \<Rightarrow> (fs, sm)
      | None \<Rightarrow> (base_image sm,
                 sm\<lparr>containers := dict_set (containers sm) aid (base_image sm)\<rparr>))"

text \<open>The two checks at the head of \<^verbatim>\<open>read_file\<close> and \<^verbatim>\<open>write_file\<close>.\<close>

definition within_workspace :: "string \<Rightarrow> string \<Rightarrow> error + string" where
  "within_workspace verb path =
     (let p = (if \<not> startswith path ''/'' then ''/workspace/'' @ path else path)
      in if \<not> startswith p ''/workspace''
         then Inl (PermissionError (''Can only '' @ verb @ '' files within /workspace''))
         else Inr p)"

definition read_file :: "SandboxManager \<Rightarrow> string \<Rightarrow> string \<Rightarrow> (error + string) \<times> SandboxManager" where
  "read_file sm aid path =
     (case get_container sm aid of
        (fs, sm1) \<Rightarrow>
          (case within_workspace ''read'' path of
             Inl e \<Rightarrow> (Inl e, sm1)
           | Inr p \<Rightarrow>
               (case dict_get fs (resolve p) of
                  None \<Rightarrow> (Inl (FileNotFoundError (''File not found: '' @ p)), sm1)
                | Some text \<Rightarrow> (Inr text, sm1))))"

definition write_file :: "SandboxManager \<Rightarrow> string \<Rightarrow> string \<Rightarrow> string
    \<Rightarrow> (error + unit) \<times> SandboxManager" where
  "write_file sm aid path text =
     (case get_container sm aid of
        (fs, sm1) \<Rightarrow>
          (case within_workspace ''write'' path of
             Inl e \<Rightarrow> (Inl e, sm1)
           | Inr p \<Rightarrow>
               (Inr (), sm1\<lparr>containers :=
                  dict_set (containers sm1) aid (dict_set fs (resolve p) text)\<rparr>)))"

text \<open>A manager whose base image holds one file outside the workspace.\<close>

definition example_sandbox :: SandboxManager where
  "example_sandbox = \<lparr>containers = [], base_image = [([''etc'', ''passwd''], ''root:x:0:0'')]\<rparr>"

section \<open>Persistence (core/civilization.py, storage/json_store.py)\<close>

text \<open>
  The store is the directory of saved civilizations, by identifier. Writing the aggregate
  state as JSON text and parsing it back is taken to return the values modelled here
  unchanged; the index file and the restoring of sandbox snapshots (whose failures
  \<^verbatim>\<open>load\<close> ignores) are not modelled.
\<close>

type_synonym json_store = "(string \<times> CivilizationState) list"

definition save :: "Civilization \<Rightarrow> json_store \<Rightarrow> Civilization \<times> json_store" where
  "save civ st =
     (let s1 = (c_state civ)
                 \<lparr>tool_definitions :=
                    filter (\<lambda>t. scope t \<noteq> BUILTIN) (get_all_tools (tool_registry civ)),
                  alliances := dict_values (c_alliances civ)\<rparr>;
          s2 = s1\<lparr>agent_states :=
                    foldl (\<lambda>d (k, a). dict_set d k (state a)) (agent_states s1) (agents civ)\<rparr>
      in (civ\<lparr>c_state := s2\<rparr>, dict_set st (cs_id s2) s2))"

text \<open>
  \<^verbatim>\<open>load\<close>: a new civilization (new registry with its built-ins, \<open>ids\<close> being the
  identifiers drawn for them), the saved state put in place, then agents, tools and
  alliances rebuilt from it. A \<^verbatim>\<open>ValueError\<close> of \<^verbatim>\<open>register\<close> is swallowed.
\<close>

definition load :: "AIvilizationConfig \<Rightarrow> string \<Rightarrow> json_store \<Rightarrow> string list \<Rightarrow> (string \<Rightarrow> string)
    \<Rightarrow> (string \<Rightarrow> json) \<Rightarrow> datetime \<Rightarrow> error + Civilization" where
  "load cfg civilization_id st ids descr schema now =
     (case dict_get st civilization_id of
        None \<Rightarrow> Inl (FileNotFoundError
                  (''No civilization found with id '' @ quoted civilization_id))
      | Some civ_state \<Rightarrow>
          let civ = (Civilization_init cfg (cs_name civ_state) ids descr schema [] now)
                      \<lparr>c_state := civ_state\<rparr>;
              civ1 = civ\<lparr>agents :=
                       foldl (\<lambda>d (k, s). dict_set d k \<lparr>state = s, delegation_chain = []\<rparr>)
                         (agents civ) (agent_states civ_state)\<rparr>;
              civ2 = civ1\<lparr>tool_registry :=
                       foldl (\<lambda>r t. snd (register r t)) (tool_registry civ1)
                         (tool_definitions civ_state)\<rparr>;
              civ3 = civ2\<lparr>c_alliances :=
                       foldl (\<lambda>d a. dict_set d (al_id a) a) (c_alliances civ2)
                         (alliances civ_state)\<rparr>
          in Inr civ3)"

text \<open>What the round trip is observed on.\<close>

definition custom_tools :: "Civilization \<Rightarrow> ToolDefinition list" where
  "custom_tools civ = filter (\<lambda>t. scope t \<noteq> BUILTIN) (get_all_tools (tool_registry civ))"

definition agent_table :: "Civilization \<Rightarrow> (string \<times> AgentState) list" where
  "agent_table civ = map (\<lambda>(k, a). (k, state a)) (agents civ)"

definition reloaded :: "Civilization \<Rightarrow> json_store \<Rightarrow> AIvilizationConfig \<Rightarrow> string list
    \<Rightarrow> (string \<Rightarrow> string) \<Rightarrow> (string \<Rightarrow> json) \<Rightarrow> datetime \<Rightarrow> error + Civilization" where
  "reloaded civ st cfg ids descr schema now =
     load cfg (cs_id (c_state civ)) (snd (save civ st)) ids descr schema now"

text \<open>
  Example states: the civilization of \<open>A\<close> and \<open>B\<close> with the example registry and an
  alliance, and the same after \<open>agent-2\<close> has renamed its tool \<open>beta\<close> to \<open>alpha\<close>.
\<close>

definition civ_tools :: Civilization where
  "civ_tools =
     snd (create_alliance (civ_AB\<lparr>tool_registry := example_registry\<rparr>) ''team'' [''A'', ''B'']
            ''work'' [] ''A'' ''al-1'' 0)"

definition civ_renamed :: Civilization where
  "civ_renamed = civ_tools\<lparr>tool_registry :=
     snd (update example_registry ''t2'' (no_updates\<lparr>u_name := Some ''alpha''\<rparr>) ''agent-2'')\<rparr>"

section \<open>Skeleton extraction (tools/toolification.py)\<close>

text \<open>
  \<^verbatim>\<open>_extract_skeleton\<close> is four \<^verbatim>\<open>re.sub\<close> calls and a \<^verbatim>\<open>strip\<close>. A character of the text
  is a code point below 256; \<^verbatim>\<open>\d\<close>, \<^verbatim>\<open>\w\<close> and \<^verbatim>\<open>\s\<close> are the classes of Python's \<^verbatim>\<open>re\<close> for
  \<^verbatim>\<open>str\<close> patterns on these code points, and \<^verbatim>\<open>strip\<close> removes the characters of \<^verbatim>\<open>\s\<close>.
  \<^verbatim>\<open>re.sub\<close> scans from the left, replaces the leftmost match and goes on after it; for a
  pattern that matches no empty string it is \<open>re_sub m repl\<close>, where \<open>m prev s\<close> is the
  length of the pattern's match at the head of the remaining text \<open>s\<close> (0 for none) and
  \<open>prev\<close> tells whether the character before it is a word character, which is what
  \<^verbatim>\<open>\b\<close> at the head of a pattern looks at.
\<close>

definition is_digit :: "char \<Rightarrow> bool" where
  "is_digit c = in_ranges (of_char c) [(48, 57)]"

definition is_word :: "char \<Rightarrow> bool" where
  "is_word c =
     in_ranges (of_char c)
       [(48, 57), (65, 90), (95, 95), (97, 122), (170, 170), (178, 179), (181, 181),
        (185, 186), (188, 190), (192, 214), (216, 246), (248, 255)]"

definition is_space :: "char \<Rightarrow> bool" where
  "is_space c = in_ranges (of_char c) [(9, 13), (28, 32), (133, 133), (160, 160)]"

definition starts_word :: "string \<Rightarrow> bool" where
  "starts_word s = (case s of [] \<Rightarrow> False | c # _ \<Rightarrow> is_word c)"

function re_sub :: "(bool \<Rightarrow> string \<Rightarrow> nat) \<Rightarrow> string \<Rightarrow> bool \<Rightarrow> string \<Rightarrow> string" where
  "re_sub m repl prev [] = []"
| "re_sub m repl prev (c # cs) =
     (if m prev (c # cs) = 0 then c # re_sub m repl (is_word c) cs
      else repl @ re_sub m repl (is_word (last (take (m prev (c # cs)) (c # cs))))
                    (drop (m prev (c # cs)) (c # cs)))"
  by pat_completeness auto
termination
  by (relation "measure (\<lambda>(m, repl, prev, s). length s)") auto

text \<open>
  The match of \<^verbatim>\<open>q[^q]*q\<close> for a quote character \<open>q\<close>: from an opening \<open>q\<close> to the next
  \<open>q\<close>, when there is one.
\<close>

definition quote_match :: "char \<Rightarrow> bool \<Rightarrow> string \<Rightarrow> nat" where
  "quote_match q prev s =
     (case s of
        [] \<Rightarrow> 0
      | c # cs \<Rightarrow> if c = q \<and> q \<in> set cs
                  then length (takeWhile (\<lambda>x. x \<noteq> q) cs) + 2 else 0)"

text \<open>
  The match of \<^verbatim>\<open>\b\d+\.?\d*\b\<close>. It starts at a digit that follows no word character.
  After the longest run of digits \<open>d1\<close>: with a dot and a further run \<open>d2\<close> that no word
  character follows, all of it; otherwise with a dot that a word character follows (a
  digit of \<open>d2\<close> or a letter), \<open>d1\<close> and the dot; otherwise with a dot, \<open>d1\<close> alone;
  without a dot, \<open>d1\<close> if no word character follows it, and no match if one does.
\<close>

definition num_match :: "bool \<Rightarrow> string \<Rightarrow> nat" where
  "num_match prev s =
     (let d1 = takeWhile is_digit s; r1 = dropWhile is_digit s
      in if prev \<or> d1 = [] then 0
         else (case r1 of
                 [] \<Rightarrow> length d1
               | c # r2 \<Rightarrow>
                   if c = CHR ''.''
                   then (let d2 = takeWhile is_digit r2; r3 = dropWhile is_digit r2
                         in if d2 \<noteq> [] \<and> \<not> starts_word r3 then length d1 + 1 + length d2
                            else if starts_word r2 then length d1 + 1
                            else length d1)
                   else if is_word c then 0 else length d1))"

definition space_match :: "bool \<Rightarrow> string \<Rightarrow> nat" where
  "space_match prev s = length (takeWhile is_space s)"

definition strip :: "string \<Rightarrow> string" where
  "strip s = rev (dropWhile is_space (rev (dropWhile is_space s)))"

definition dq :: char where "dq = CHR 0x22"

definition sq :: char where "sq = CHR 0x27"

definition str_placeholder :: "char \<Rightarrow> string" where
  "str_placeholder q = q # ''<STR>'' @ [q]"

definition sub_strings :: "string \<Rightarrow> string" where
  "sub_strings code =
     re_sub (quote_match sq) (str_placeholder sq) False
       (re_sub (quote_match dq) (str_placeholder dq) False code)"

definition extract_skeleton :: "string \<Rightarrow> string" where
  "extract_skeleton code =
     strip (re_sub space_match '' '' False
              (re_sub num_match ''<NUM>'' False (sub_strings code)))"

text \<open>
  Fragments as pieces: text without quote characters, and string literals. The contents
  of a literal in double quotes have no double quote; those of a literal in single quotes
  have neither quote character.
\<close>

datatype piece = Text string | Literal char string

definition quote_free :: "string \<Rightarrow> bool" where
  "quote_free s = (dq \<notin> set s \<and> sq \<notin> set s)"

definition literal_ok :: "char \<Rightarrow> string \<Rightarrow> bool" where
  "literal_ok q s = (dq \<notin> set s \<and> (q = dq \<or> (q = sq \<and> sq \<notin> set s)))"

fun render :: "piece list \<Rightarrow> string" where
  "render [] = []"
| "render (Text t # ps) = t @ render ps"
| "render (Literal q s # ps) = q # s @ q # render ps"

fun plain :: "piece \<Rightarrow> bool" where
  "plain (Text t) = quote_free t"
| "plain (Literal q s) = literal_ok q s"

text \<open>
  A number written as digits, or as digits, a dot and digits; a text that ends, and one
  that starts, with neither a word character nor a dot (or is empty).
\<close>

definition all_digits :: "string \<Rightarrow> bool" where
  "all_digits s = (s \<noteq> [] \<and> list_all is_digit s)"

definition number_literal :: "string \<Rightarrow> bool" where
  "number_literal n =
     (let d1 = takeWhile is_digit n; r1 = dropWhile is_digit n
      in d1 \<noteq> [] \<and> (r1 = [] \<or> (hd r1 = CHR ''.'' \<and> all_digits (tl r1))))"

definition ends_open :: "string \<Rightarrow> bool" where
  "ends_open s = (s = [] \<or> (\<not> is_word (last s) \<and> last s \<noteq> CHR ''.''))"

definition starts_open :: "string \<Rightarrow> bool" where
  "starts_open s = (s = [] \<or> (\<not> is_word (hd s) \<and> hd s \<noteq> CHR ''.''))"

text \<open>What the two string substitutions make of a piece.\<close>

fun after_dq :: "piece \<Rightarrow> piece" where
  "after_dq (Text t) = Text t"
| "after_dq (Literal q s) = (if q = dq then Text (str_placeholder dq) else Literal q s)"

fun after_sq :: "piece \<Rightarrow> piece" where
  "after_sq (Text t) = Text t"
| "after_sq (Literal q s) = Text (str_placeholder q)"

definition after_strings :: "piece \<Rightarrow> piece" where
  "after_strings x = after_sq (after_dq x)"

fun sq_ready :: "piece \<Rightarrow> bool" where
  "sq_ready (Text t) = (sq \<notin> set t)"
| "sq_ready (Literal q s) = (q = sq \<and> sq \<notin> set s)"

section \<open>Conversation compaction\<close>

lemma max_turns_add [simp]:
  "max_conversation_turns (add_conversation_turn m r c) = max_conversation_turns m"
  by (simp add: add_conversation_turn_def compact_history_def Let_def)

lemma max_turns_add_turns [simp]:
  "max_conversation_turns (add_turns m ts) = max_conversation_turns m"
  by (induction ts arbitrary: m) auto

text \<open>
  One call, from any stored history: for a window of at least 1, whenever the length
  after the append exceeds twice the window, the stored list is the first two turns
  followed by the last \<open>N\<close> turns of the appended list.
\<close>

lemma add_conversation_turn_window:
  assumes "1 \<le> max_conversation_turns m"
    and "int (length (conversation_history m)) + 1 > 2 * max_conversation_turns m"
  shows "conversation_history (add_conversation_turn m r c) =
           take 2 (conversation_history m @ [\<lparr>role = r, content = c\<rparr>])
           @ drop (length (conversation_history m) + 1 - nat (max_conversation_turns m))
               (conversation_history m @ [\<lparr>role = r, content = c\<rparr>])"
proof -
  let ?h = "conversation_history m @ [\<lparr>role = r, content = c\<rparr>]"
  let ?N = "max_conversation_turns m"
  have len: "int (length ?h) > 2 * ?N" using assms(2) by simp
  show ?thesis
  proof (cases "int (length ?h) > ?N + 2")
    case True
    have "nat (int (length ?h) + - ?N) = length (conversation_history m) + 1 - nat ?N"
      using assms(1) by simp
    with True len assms(1) show ?thesis
      by (simp add: add_conversation_turn_def compact_history_def py_slice_from_def Let_def)
  next
    case False
    with len assms(1) have N1: "?N = 1" and l3: "length ?h = 3" by auto
    from l3 have l2: "length (conversation_history m) = 2" by simp
    then obtain a b where ab: "conversation_history m = [a, b]"
      by (cases "conversation_history m"; simp)
        (metis length_0_conv length_Suc_conv One_nat_def Suc_1 Suc_inject)
    with N1 False len show ?thesis
      by (simp add: add_conversation_turn_def compact_history_def Let_def)
  qed
qed

text \<open>
  C6, at window size 0. \<^verbatim>\<open>history[-0:]\<close> is the whole list, so the compaction that the
  third call triggers stores the first two turns followed by all three turns: five
  turns, where the claim has the earliest two followed by the most recent zero.
\<close>

theorem add_conversation_turn_window_zero:
  "conversation_history
     (add_turns (AgentMemory\<lparr>max_conversation_turns := 0\<rparr>)
        [(''user'', TextContent ''a''), (''assistant'', TextContent ''b''),
         (''user'', TextContent ''c'')])
   = map mk_turn
       [(''user'', TextContent ''a''), (''assistant'', TextContent ''b''),
        (''user'', TextContent ''a''), (''assistant'', TextContent ''b''),
        (''user'', TextContent ''c'')]"
  by (simp add: AgentMemory_def add_conversation_turn_def compact_history_def
      py_slice_from_def mk_turn_def Let_def)

section \<open>Registry: permissions of update and delete\<close>

lemma fresh_registry_eval:
  "tools fresh_registry = zip example_ids [0..<10]"
  "tools_by_name fresh_registry = zip BUILTIN_TOOLS [0..<10]"
  "handlers fresh_registry = map (\<lambda>n. (n, BuiltinHandler n)) BUILTIN_TOOLS"
  "objs fresh_registry =
     map (\<lambda>(n, i). new_tool i n [] (JDict []) BUILTIN 0) (zip BUILTIN_TOOLS example_ids)"
  "execution_log fresh_registry = []"
  by (simp_all add: fresh_registry_def ToolRegistry_init_def BUILTIN_TOOLS_def example_ids_def
      dict_set_def Let_def new_tool_def upt_rec)

lemma example_registry_eval:
  "tools example_registry = zip example_ids [0..<10] @ [(''t1'', 10), (''t2'', 11)]"
  "tools_by_name example_registry
     = zip BUILTIN_TOOLS [0..<10] @ [(''alpha'', 10), (''beta'', 11)]"
  "handlers example_registry = map (\<lambda>n. (n, BuiltinHandler n)) BUILTIN_TOOLS"
  "objs example_registry
     = objs fresh_registry @ [example_tool ''t1'' ''alpha'' SHARED (Some ''agent-1''),
                              example_tool ''t2'' ''beta'' PRIVATE (Some ''agent-2'')]"
  "execution_log example_registry = []"
  by (simp_all add: example_registry_def register_def fresh_registry_eval BUILTIN_TOOLS_def
      example_ids_def dict_set_def dict_has_def Let_def new_tool_def example_tool_def
      truthy_def upt_rec)



lemma update_permission_iff:
  assumes "dict_get (tools r) tool_id = Some a"
  shows "is_permission_error (fst (update r tool_id u req))
           = (scope (objs r ! a) = BUILTIN
              \<or> scope (objs r ! a) = PRIVATE \<and> created_by_agent_id (objs r ! a) \<noteq> Some req)"
  using assms
  by (auto simp: update_def is_permission_error_def Let_def split: option.splits)

lemma delete_permission_iff:
  assumes "dict_get (tools r) tool_id = Some a"
  shows "is_permission_error (fst (delete r tool_id req))
           = (scope (objs r ! a) = BUILTIN
              \<or> scope (objs r ! a) = PRIVATE \<and> created_by_agent_id (objs r ! a) \<noteq> Some req)"
  using assms
  by (auto simp: delete_def is_permission_error_def Let_def split: option.splits)



lemma update_succeeds:
  assumes "dict_get (tools r) tool_id = Some a"
    and "\<not> is_permission_error (fst (update r tool_id u req))"
    and "dict_has (tools_by_name r) (td_name (objs r ! a))"
  shows "succeeded (fst (update r tool_id u req))"
proof -
  from assms(1,2) have "scope (objs r ! a) \<noteq> BUILTIN"
    and "\<not> (scope (objs r ! a) = PRIVATE \<and> created_by_agent_id (objs r ! a) \<noteq> Some req)"
    by (simp_all add: update_permission_iff)
  with assms(1,3) show ?thesis
    by (auto simp: update_def succeeded_def Let_def)
qed

lemma delete_succeeds:
  assumes "dict_get (tools r) tool_id = Some a"
    and "\<not> is_permission_error (fst (delete r tool_id req))"
    and "dict_has (tools_by_name r) (td_name (objs r ! a))"
  shows "fst (delete r tool_id req) = Inr (td_name (objs r ! a))"
proof -
  from assms(1,2) have "scope (objs r ! a) \<noteq> BUILTIN"
    and "\<not> (scope (objs r ! a) = PRIVATE \<and> created_by_agent_id (objs r ! a) \<noteq> Some req)"
    by (simp_all add: delete_permission_iff)
  with assms(1,3) show ?thesis
    by (auto simp: delete_def Let_def)
qed










lemma example_registry_lookup:
  "dict_get (tools example_registry) ''b0'' = Some 0"
  "dict_get (tools example_registry) ''t1'' = Some 10"
  "dict_get (tools example_registry) ''t2'' = Some 11"
  "objs example_registry ! 0 = new_tool ''b0'' ''create_agent'' [] (JDict []) BUILTIN 0"
  "objs example_registry ! 10 = example_tool ''t1'' ''alpha'' SHARED (Some ''agent-1'')"
  "objs example_registry ! 11 = example_tool ''t2'' ''beta'' PRIVATE (Some ''agent-2'')"
  "dict_has (tools_by_name example_registry) ''alpha''"
  "dict_has (tools_by_name example_registry) ''beta''"
  by (simp_all add: example_registry_eval fresh_registry_eval dict_get_def dict_has_def
      example_ids_def BUILTIN_TOOLS_def upt_rec nth_append)



text \<open>
  Without the entry in the name index a permitted call does not succeed: in the registry
  left by the rename of \<open>beta\<close> to \<open>alpha\<close> and the delete of that tool, the shared tool
  \<open>alpha\<close> is stored and nobody is refused permission, but its delete raises \<^verbatim>\<open>KeyError\<close>
  (after the identifier was removed) and so does an update that renames it (after the
  object was changed).
\<close>

theorem permitted_call_raises_key_error:
  "map td_name (get_all_tools orphaned_registry) = BUILTIN_TOOLS @ [''alpha'']
   \<and> map_option scope (get orphaned_registry ''t1'') = Some SHARED
   \<and> \<not> dict_has (tools_by_name orphaned_registry) ''alpha''
   \<and> fst (delete orphaned_registry ''t1'' ''agent-2'') = Inl (KeyError ''alpha'')
   \<and> get (snd (delete orphaned_registry ''t1'' ''agent-2'')) ''t1'' = None
   \<and> fst (update orphaned_registry ''t1'' (no_updates\<lparr>u_name := Some ''gamma''\<rparr>) ''agent-2'')
       = Inl (KeyError ''alpha'')
   \<and> map_option td_name
        (get (snd (update orphaned_registry ''t1'' (no_updates\<lparr>u_name := Some ''gamma''\<rparr>)
                ''agent-2'')) ''t1'')
       = Some ''gamma''"
  by code_simp

section \<open>Registry: uniqueness of names\<close>

text \<open>
  \<^verbatim>\<open>register\<close> refuses a name that the name index holds, and leaves the registry as it was.
\<close>

lemma register_conflict:
  assumes "dict_has (tools_by_name r) (td_name t)"
  shows "\<exists>m. register r t = (Inl (ValueError m), r)"
  using assms by (simp add: register_def)

text \<open>
  C2, on the code. \<^verbatim>\<open>update\<close> does not look the new name up: renaming the private tool
  \<open>beta\<close> to \<open>alpha\<close>, the name of the shared tool registered before it, succeeds, and the
  registry then stores two definitions named \<open>alpha\<close>.
\<close>

theorem update_rename_duplicates_name:
  "fst (update example_registry ''t2'' (no_updates\<lparr>u_name := Some ''alpha''\<rparr>) ''agent-2'')
     = Inr ((example_tool ''t2'' ''alpha'' PRIVATE (Some ''agent-2''))\<lparr>version := 2\<rparr>)
   \<and> map td_name (get_all_tools
         (snd (update example_registry ''t2'' (no_updates\<lparr>u_name := Some ''alpha''\<rparr>) ''agent-2'')))
     = BUILTIN_TOOLS @ [''alpha'', ''alpha'']
   \<and> map td_id (get_all_tools
         (snd (update example_registry ''t2'' (no_updates\<lparr>u_name := Some ''alpha''\<rparr>) ''agent-2'')))
     = example_ids @ [''t1'', ''t2'']"
  by (simp add: update_def example_registry_eval fresh_registry_eval example_registry_lookup
      dict_get_def dict_has_def dict_set_def dict_del_def dict_values_def get_all_tools_def
      rebuild_handler_def apply_updates_def set_opt_def no_updates_def example_tool_def
      new_tool_def example_ids_def BUILTIN_TOOLS_def Let_def upt_rec nth_append)

section \<open>Tool execution: the log, the usage counter and the loop\<close>

lemma upd_agent_fields [simp]:
  "config (upd_agent civ aid f) = config civ"
  "tool_registry (upd_agent civ aid f) = tool_registry civ"
  "events (upd_agent civ aid f) = events civ"
  "c_alliances (upd_agent civ aid f) = c_alliances civ"
  "c_state (upd_agent civ aid f) = c_state civ"
  by (simp_all add: upd_agent_def)

lemma upd_state_fields [simp]:
  "config (upd_state civ aid f) = config civ"
  "tool_registry (upd_state civ aid f) = tool_registry civ"
  "events (upd_state civ aid f) = events civ"
  "c_alliances (upd_state civ aid f) = c_alliances civ"
  "c_state (upd_state civ aid f) = c_state civ"
  by (simp_all add: upd_state_def)

lemma remember_fields [simp]:
  "config (remember civ aid r c) = config civ"
  "tool_registry (remember civ aid r c) = tool_registry civ"
  "events (remember civ aid r c) = events civ"
  "c_alliances (remember civ aid r c) = c_alliances civ"
  "c_state (remember civ aid r c) = c_state civ"
  by (simp_all add: remember_def)

lemma tools_start_fields [simp]:
  "config (tools_start civ aid cs tin tout) = config civ"
  "tool_registry (tools_start civ aid cs tin tout) = tool_registry civ"
  by (simp_all add: tools_start_def)

lemma map_of_upd_agent:
  "map_of (map (\<lambda>(k, a). if k = aid then (k, f a) else (k, a)) xs) k
     = (if k = aid then map_option f (map_of xs k) else map_of xs k)"
  by (induction xs) auto

lemma get_agent_upd_agent:
  "get_agent (upd_agent civ aid f) k
     = (if k = aid then map_option f (get_agent civ k) else get_agent civ k)"
  by (simp add: get_agent_def upd_agent_def dict_get_def map_of_upd_agent)


















text \<open>
  A bound handler does not imply an entry in the name index. In the registry left by the
  rename of \<open>beta\<close> to \<open>alpha\<close>, the delete of that tool and the update that gives the
  remaining tool \<open>alpha\<close> a source, a handler is bound under \<open>alpha\<close> and the name index has
  no such entry: a call of \<open>alpha\<close> is logged and no usage counter is incremented, whether
  the handler returns or raises.
\<close>

theorem bound_handler_without_index_entry:
  "dict_get (handlers unindexed_registry) ''alpha'' = Some (CustomHandler 10)
   \<and> map td_name (get_all_tools unindexed_registry) = BUILTIN_TOOLS @ [''alpha'']
   \<and> map usage_count (get_all_tools unindexed_registry) = replicate 11 0
   \<and> get_by_name unindexed_registry ''alpha'' = None
   \<and> fst (execute (\<lambda>r. r) (\<lambda>s r. r) unindexed_registry ''alpha'' (JDict []) ''A''
             (\<lambda>h s. (Inr ''1'', s)) 5 7) = Inr ''1''
   \<and> execution_log (snd (execute (\<lambda>r. r) (\<lambda>s r. r) unindexed_registry ''alpha'' (JDict []) ''A''
                          (\<lambda>h s. (Inr ''1'', s)) 5 7))
       = [\<lparr>tool_name = ''alpha'', agent_id = ''A'', input_params = JDict [],
            rec_output = ''1'', success = True, duration_ms = 5, timestamp = 7\<rparr>]
   \<and> map usage_count
         (get_all_tools (snd (execute (\<lambda>r. r) (\<lambda>s r. r) unindexed_registry ''alpha'' (JDict [])
                                ''A'' (\<lambda>h s. (Inr ''1'', s)) 5 7)))
       = replicate 11 0
   \<and> map usage_count
         (get_all_tools (snd (execute (\<lambda>r. r) (\<lambda>s r. r) unindexed_registry ''alpha'' (JDict [])
                                ''A'' (\<lambda>h s. (Inl (RuntimeError ''boom''), s)) 5 7)))
       = replicate 11 0"
  by code_simp

section \<open>Agent creation depth\<close>

lemma emit_fields [simp]:
  "config (emit civ ty d) = config civ"
  "agents (emit civ ty d) = agents civ"
  "tool_registry (emit civ ty d) = tool_registry civ"
  "c_alliances (emit civ ty d) = c_alliances civ"
  "c_state (emit civ ty d) = c_state civ"
  by (simp_all add: emit_def Let_def)


lemma create_agent_config [simp]:
  "config (snd (create_agent civ name role_text prompt cb d new_id now)) = config civ"
  by (simp add: create_agent_def Let_def split: option.splits)



lemma dict_get_dict_set [simp]:
  "dict_get (dict_set d k v) k' = (if k' = k then Some v else dict_get d k')"
  by (simp add: dict_get_def dict_set_def update_conv')






lemma execute_create_agent_config [simp]:
  "config (snd (execute_create_agent civ aid inp new_id now)) = config civ"
  by (auto simp: execute_create_agent_def split_beta split: option.splits sum.splits)










section \<open>Delegation: the cycle check\<close>


lemma execute_delegate_task_dispatch:
  assumes "get_agent civ aid = Some agent"
    and "field_str inp ''agent_id'' = Inr target_id"
    and "field_str inp ''message'' = Inr m"
    and "get_agent civ target_id = Some target"
    and "target_id \<notin> set (delegation_chain agent)"
  shows "execute_delegate_task civ aid inp sub
           = (case process_message
                     (upd_agent civ target_id
                        (\<lambda>t. t\<lparr>delegation_chain :=
                                 delegation_chain agent @ [st_id (state agent)]\<rparr>))
                     target_id (delegated_msg agent m) sub of
                (res, civ2) \<Rightarrow>
                  (case res of
                     Inl e \<Rightarrow> Inl e
                   | Inr response \<Rightarrow>
                       Inr (response_from
                              (upd_agent civ2 target_id (\<lambda>t. t\<lparr>delegation_chain := []\<rparr>))
                              target_id response),
                   upd_agent civ2 target_id (\<lambda>t. t\<lparr>delegation_chain := []\<rparr>)))"
  using assms
  by (simp add: execute_delegate_task_def execute_delegate_task_with_def Let_def
      split: prod.splits sum.splits)

text \<open>
  After a dispatched delegation the target's chain is empty, whether its loop returned
  or raised.
\<close>

lemma execute_delegate_task_clears:
  assumes "get_agent civ aid = Some agent"
    and "field_str inp ''agent_id'' = Inr target_id"
    and "field_str inp ''message'' = Inr m"
    and "get_agent civ target_id = Some target"
    and "target_id \<notin> set (delegation_chain agent)"
    and "get_agent (snd (execute_delegate_task civ aid inp sub)) target_id = Some t"
  shows "delegation_chain t = []"
  using assms(6) unfolding execute_delegate_task_dispatch [OF assms(1-5)]
  by (auto simp: get_agent_upd_agent split: prod.splits sum.splits if_splits)




text \<open>
  C4, on the code. \<open>A\<close> delegates to \<open>B\<close> and \<open>B\<close>'s first reply delegates back to \<open>A\<close>: the
  call is refused and \<open>A\<close>'s loop is not entered again (its history stays empty), but the
  text that \<open>B\<close> receives names the chain \<open>A -> A\<close>: the chain handed to \<open>B\<close> is \<open>[A]\<close>, and
  the message joins it with the target, leaving out \<open>B\<close> itself.
\<close>

theorem delegation_cycle_names_shorter_chain:
  "fst (execute_delegate_task civ_AB ''A'' (delegate_input ''B'' ''please help'')
          (script_back_to ''A''))
     = Inr (''Response from 'Bob':'' @ [CHR 0x0A] @ ''done'')
   \<and> map content (history_of
         (snd (execute_delegate_task civ_AB ''A'' (delegate_input ''B'' ''please help'')
                 (script_back_to ''A''))) ''B'')
     = [TextContent (''[Task delegated from 'Alice' (id: A)]'' @ [CHR 0x0A, CHR 0x0A]
                     @ ''please help''),
        AssistantBlocks [ToolUseBlock ''u2'' ''delegate_task''
                           (delegate_input ''A'' ''back to you'')],
        ToolResults [\<lparr>tool_use_id = ''u2'',
                       tr_content = ''Error: delegation cycle detected. Chain: A -> A'',
                       is_error = False\<rparr>],
        AssistantBlocks [TextBlock ''done'']]
   \<and> history_of
         (snd (execute_delegate_task civ_AB ''A'' (delegate_input ''B'' ''please help'')
                 (script_back_to ''A''))) ''A'' = []"
  by code_simp

section \<open>Delegation to oneself\<close>




text \<open>
  A scripted run: \<open>A\<close> delegates to itself, and the first reply of the nested run delegates
  to \<open>A\<close> once more. The nested run takes place (the delegated message is in \<open>A\<close>'s
  history) and the second delegation is answered with the cycle error.
\<close>

lemma self_delegation_run:
  "fst (execute_delegate_task civ_A ''A'' (delegate_input ''A'' ''to myself'')
          (script_back_to ''A''))
     = Inr (''Response from 'Alice':'' @ [CHR 0x0A] @ ''done'')
   \<and> map content (history_of
         (snd (execute_delegate_task civ_A ''A'' (delegate_input ''A'' ''to myself'')
                 (script_back_to ''A''))) ''A'')
     = [TextContent (''[Task delegated from 'Alice' (id: A)]'' @ [CHR 0x0A, CHR 0x0A]
                     @ ''to myself''),
        AssistantBlocks [ToolUseBlock ''u2'' ''delegate_task''
                           (delegate_input ''A'' ''back to you'')],
        ToolResults [\<lparr>tool_use_id = ''u2'',
                       tr_content = ''Error: delegation cycle detected. Chain: A -> A'',
                       is_error = False\<rparr>],
        AssistantBlocks [TextBlock ''done'']]"
  by code_simp

section \<open>Sandbox confinement\<close>

text \<open>
  A path accepted by the checks and written is read back: the part of C1 that the code
  does have.
\<close>

lemma write_then_read:
  assumes "fst (write_file sm aid path text) = Inr ()"
  shows "fst (read_file (snd (write_file sm aid path text)) aid path) = Inr text"
  using assms
  by (auto simp: write_file_def read_file_def get_container_def within_workspace_def Let_def
      split: option.splits sum.splits if_splits)

lemma rejected_only_outside_prefix:
  "is_permission_error (fst (read_file sm aid path))
     \<longleftrightarrow> \<not> startswith (if startswith path ''/'' then path else ''/workspace/'' @ path)
             ''/workspace''"
  by (auto simp: read_file_def get_container_def within_workspace_def is_permission_error_def
      Let_def split: option.splits)

text \<open>
  C1, on the code. The check compares the text of the path with the prefix
  \<^verbatim>\<open>/workspace\<close> and never resolves it. A path through \<open>..\<close> is accepted and reads the
  file \<^verbatim>\<open>/etc/passwd\<close> outside the root; a relative path through \<open>..\<close> is accepted and
  writes outside the root; a sibling directory whose name starts with \<open>workspace\<close> is
  accepted; and an absolute path that resolves inside the root is rejected.
\<close>

theorem path_traversal_accepted:
  "resolve ''/workspace/../etc/passwd'' = [''etc'', ''passwd'']
   \<and> \<not> inside_root (resolve ''/workspace/../etc/passwd'')
   \<and> fst (read_file example_sandbox ''A'' ''/workspace/../etc/passwd'') = Inr ''root:x:0:0''
   \<and> \<not> inside_root (resolve (''/workspace/'' @ ''../etc/passwd''))
   \<and> fst (write_file example_sandbox ''A'' ''../etc/passwd'' ''overwritten'') = Inr ()
   \<and> fst (read_file (snd (write_file example_sandbox ''A'' ''../etc/passwd'' ''overwritten''))
            ''A'' ''/workspace/../etc/passwd'') = Inr ''overwritten''
   \<and> \<not> inside_root (resolve ''/workspace2/notes.txt'')
   \<and> fst (write_file example_sandbox ''A'' ''/workspace2/notes.txt'' ''x'') = Inr ()
   \<and> inside_root (resolve ''/tmp/../workspace/a.txt'')
   \<and> is_permission_error (fst (read_file example_sandbox ''A'' ''/tmp/../workspace/a.txt''))"
  by code_simp

section \<open>Save and load\<close>

lemma dict_set_fresh:
  "k \<notin> fst ` set d \<Longrightarrow> dict_set d k v = d @ [(k, v)]"
  unfolding dict_set_def by (induction d) auto

lemma dict_set_keys:
  "fst ` set (dict_set d k v) = insert k (fst ` set d)"
  unfolding dict_set_def by (induction d) auto

lemma dict_set_values:
  "snd ` set (dict_set d k v) \<subseteq> insert v (snd ` set d)"
  unfolding dict_set_def by (induction d) auto

lemma dict_set_present_keys:
  "k \<in> fst ` set d \<Longrightarrow> map fst (dict_set d k v) = map fst d"
  unfolding dict_set_def by (induction d) auto

lemma map_of_dict_set:
  "map_of (dict_set d k v) = (map_of d)(k \<mapsto> v)"
  by (simp add: dict_set_def update_conv')

text \<open>Rebuilding a dictionary from its items, into an empty one or after other keys.\<close>

lemma foldl_dict_set_fresh:
  assumes "distinct (map fst xs)" and "fst ` set xs \<inter> fst ` set d = {}"
  shows "foldl (\<lambda>d (k, s). dict_set d k (g s)) d xs = d @ map (\<lambda>(k, s). (k, g s)) xs"
  using assms
proof (induction xs arbitrary: d)
  case Nil
  then show ?case by simp
next
  case (Cons x xs)
  obtain k s where x: "x = (k, s)" by (cases x)
  from Cons.prems x have fresh: "k \<notin> fst ` set d" by auto
  have "fst ` set xs \<inter> fst ` set (d @ [(k, g s)]) = {}"
    using Cons.prems x by (auto simp: image_iff)
  with Cons.IH [of "d @ [(k, g s)]"] Cons.prems
  show ?case by (simp add: x dict_set_fresh [OF fresh])
qed

lemma foldl_dict_set_by_id:
  assumes "distinct (map f xs)"
  shows "foldl (\<lambda>d a. dict_set d (f a) a) [] xs = map (\<lambda>a. (f a, a)) xs"
proof -
  have "foldl (\<lambda>d a. dict_set d (f a) a) [] xs
        = foldl (\<lambda>d (k, s). dict_set d k s) [] (map (\<lambda>a. (f a, a)) xs)"
    by (simp add: foldl_map)
  also have "\<dots> = [] @ map (\<lambda>(k, s). (k, s)) (map (\<lambda>a. (f a, a)) xs)"
    using assms by (intro foldl_dict_set_fresh) (simp_all add: comp_def)
  finally show ?thesis by (simp add: comp_def)
qed

text \<open>Refreshing the entries of a dictionary that has the same keys.\<close>

lemma foldl_dict_set_keys:
  assumes "fst ` set xs \<subseteq> fst ` set d"
  shows "map fst (foldl (\<lambda>d (k, a). dict_set d k (g a)) d xs) = map fst d"
  using assms
proof (induction xs arbitrary: d)
  case Nil
  then show ?case by simp
next
  case (Cons x xs)
  obtain k a where x: "x = (k, a)" by (cases x)
  from Cons.prems x have k: "k \<in> fst ` set d" by auto
  have "fst ` set xs \<subseteq> fst ` set (dict_set d k (g a))"
    using Cons.prems by (auto simp: dict_set_keys)
  from Cons.IH [OF this] show ?case
    by (simp add: x dict_set_present_keys [OF k])
qed

lemma foldl_dict_set_map_of:
  assumes "distinct (map fst xs)"
  shows "map_of (foldl (\<lambda>d (k, a). dict_set d k (g a)) d xs) k
           = (case map_of xs k of None \<Rightarrow> map_of d k | Some a \<Rightarrow> Some (g a))"
  using assms
proof (induction xs arbitrary: d)
  case Nil
  then show ?case by simp
next
  case (Cons x xs)
  obtain k0 a0 where x: "x = (k0, a0)" by (cases x)
  from Cons.prems x have "map_of xs k0 = None"
    by (auto simp: map_of_eq_None_iff image_iff)
  with Cons.IH [of "dict_set d k0 (g a0)"] Cons.prems show ?case
    by (auto simp: x map_of_dict_set split: option.splits)
qed

lemma same_keys_same_lookup:
  assumes "map fst d = map fst e" and "distinct (map fst d)" and "map_of d = map_of e"
  shows "d = e"
  using assms
proof (induction d arbitrary: e)
  case Nil
  then show ?case by simp
next
  case (Cons x d)
  then obtain y e' where e: "e = y # e'" by (cases e) auto
  obtain k v where x: "x = (k, v)" by (cases x)
  obtain k' v' where y: "y = (k', v')" by (cases y)
  from Cons.prems(1) e x y have kk: "k' = k" by simp
  from fun_cong [OF Cons.prems(3), of k] e x y kk have vv: "v' = v" by simp
  have "map_of d = map_of e'"
  proof
    fix z
    show "map_of d z = map_of e' z"
    proof (cases "z = k")
      case True
      from Cons.prems(2) x have kd: "k \<notin> set (map fst d)" by simp
      from Cons.prems(1) e have "map fst d = map fst e'" by simp
      with kd have "k \<notin> set (map fst e')" by simp
      with kd have "map_of d k = None" and "map_of e' k = None"
        by (simp_all add: map_of_eq_None_iff)
      then show ?thesis
        using True by simp
    next
      case False
      from fun_cong [OF Cons.prems(3), of z] False e x y kk show ?thesis by simp
    qed
  qed
  moreover from Cons.prems(1) e have "map fst d = map fst e'" by simp
  moreover from Cons.prems(2) have "distinct (map fst d)" by simp
  ultimately have "d = e'" by (intro Cons.IH)
  with e x y kk vv show ?case by simp
qed

lemma foldl_dict_set_refresh:
  assumes "map fst d = map fst xs" and "distinct (map fst xs)"
  shows "foldl (\<lambda>d (k, a). dict_set d k (g a)) d xs = map (\<lambda>(k, a). (k, g a)) xs"
proof (rule same_keys_same_lookup)
  have sub: "fst ` set xs \<subseteq> fst ` set d"
    using assms(1) by (metis list.set_map subset_refl)
  show "map fst (foldl (\<lambda>d (k, a). dict_set d k (g a)) d xs)
          = map fst (map (\<lambda>(k, a). (k, g a)) xs)"
    using foldl_dict_set_keys [OF sub, of g] assms(1)
    by (simp add: comp_def split_beta)
  then show "distinct (map fst (foldl (\<lambda>d (k, a). dict_set d k (g a)) d xs))"
    using assms(2) by (simp add: comp_def split_beta)
  show "map_of (foldl (\<lambda>d (k, a). dict_set d k (g a)) d xs)
          = map_of (map (\<lambda>(k, a). (k, g a)) xs)"
  proof
    fix k
    have none: "map_of xs k = None \<Longrightarrow> map_of d k = None"
      using assms(1) by (metis map_of_eq_None_iff list.set_map)
    show "map_of (foldl (\<lambda>d (k, a). dict_set d k (g a)) d xs) k
            = map_of (map (\<lambda>(k, a). (k, g a)) xs) k"
      using none
      by (simp add: foldl_dict_set_map_of [OF assms(2)] map_of_map_restrict split_beta
          map_of_map split: option.splits)
  qed
qed

text \<open>
  Registries in which every address of the identifier index is that of a stored object.
\<close>

lemma register_objs_tools:
  assumes "\<not> dict_has (tools_by_name r) (td_name t)"
  shows "objs (snd (register r t)) = objs r @ [t]"
    and "tools (snd (register r t)) = dict_set (tools r) (td_id t) (length (objs r))"
    and "tools_by_name (snd (register r t))
           = dict_set (tools_by_name r) (td_name t) (length (objs r))"
  using assms by (simp_all add: register_def Let_def)

lemma register_appends:
  assumes "td_name t \<notin> fst ` set (tools_by_name r)"
    and "td_id t \<notin> fst ` set (tools r)"
    and "\<forall>a \<in> snd ` set (tools r). a < length (objs r)"
  shows "get_all_tools (snd (register r t)) = get_all_tools r @ [t]"
    and "\<forall>a \<in> snd ` set (tools (snd (register r t))). a < length (objs (snd (register r t)))"
    and "fst ` set (tools_by_name (snd (register r t)))
           = insert (td_name t) (fst ` set (tools_by_name r))"
    and "fst ` set (tools (snd (register r t))) = insert (td_id t) (fst ` set (tools r))"
proof -
  have nh: "\<not> dict_has (tools_by_name r) (td_name t)"
    using assms(1) by (simp add: dict_has_def)
  note eqs = register_objs_tools [OF nh]
  have old: "map (\<lambda>a. (objs r @ [t]) ! a) (map snd (tools r))
             = map (\<lambda>a. objs r ! a) (map snd (tools r))"
    using assms(3) by (auto simp: nth_append)
  show "get_all_tools (snd (register r t)) = get_all_tools r @ [t]"
    using old
    by (simp add: get_all_tools_def dict_values_def eqs dict_set_fresh [OF assms(2)])
  show "\<forall>a \<in> snd ` set (tools (snd (register r t))). a < length (objs (snd (register r t)))"
    using assms(3) by (auto simp: eqs dict_set_fresh [OF assms(2)])
  show "fst ` set (tools_by_name (snd (register r t)))
           = insert (td_name t) (fst ` set (tools_by_name r))"
    by (simp add: eqs dict_set_keys)
  show "fst ` set (tools (snd (register r t))) = insert (td_id t) (fst ` set (tools r))"
    by (simp add: eqs dict_set_keys)
qed

lemma register_all_appends:
  assumes "distinct (map td_name ts)"
    and "set (map td_name ts) \<inter> fst ` set (tools_by_name r) = {}"
    and "distinct (map td_id ts)"
    and "set (map td_id ts) \<inter> fst ` set (tools r) = {}"
    and "\<forall>a \<in> snd ` set (tools r). a < length (objs r)"
  shows "get_all_tools (foldl (\<lambda>r t. snd (register r t)) r ts) = get_all_tools r @ ts"
  using assms
proof (induction ts arbitrary: r)
  case Nil
  then show ?case by simp
next
  case (Cons t ts)
  from Cons.prems have n: "td_name t \<notin> fst ` set (tools_by_name r)"
    and i: "td_id t \<notin> fst ` set (tools r)" by auto
  note step = register_appends [OF n i Cons.prems(5)]
  have "get_all_tools (foldl (\<lambda>r t. snd (register r t)) (snd (register r t)) ts)
          = get_all_tools (snd (register r t)) @ ts"
  proof (rule Cons.IH)
    show "distinct (map td_name ts)" using Cons.prems(1) by simp
    show "set (map td_name ts) \<inter> fst ` set (tools_by_name (snd (register r t))) = {}"
      using Cons.prems(1,2) by (auto simp: step(3))
    show "distinct (map td_id ts)" using Cons.prems(3) by simp
    show "set (map td_id ts) \<inter> fst ` set (tools (snd (register r t))) = {}"
      using Cons.prems(3,4) by (auto simp: step(4))
    show "\<forall>a \<in> snd ` set (tools (snd (register r t))).
            a < length (objs (snd (register r t)))"
      by (rule step(2))
  qed
  then show ?case by (simp add: step(1))
qed

text \<open>The registry that the constructor builds.\<close>

lemma register_builtins_inv:
  assumes "\<forall>a \<in> snd ` set (tools r). a < length (objs r) \<and> scope (objs r ! a) = BUILTIN"
  shows "(\<forall>a \<in> snd ` set (tools (register_builtins r nis descr schema now)).
            a < length (objs (register_builtins r nis descr schema now))
            \<and> scope (objs (register_builtins r nis descr schema now) ! a) = BUILTIN)
       \<and> fst ` set (tools_by_name (register_builtins r nis descr schema now))
           = fst ` set (tools_by_name r) \<union> fst ` set nis
       \<and> fst ` set (tools (register_builtins r nis descr schema now))
           = fst ` set (tools r) \<union> snd ` set nis"
  using assms
proof (induction nis arbitrary: r)
  case Nil
  then show ?case by simp
next
  case (Cons x nis)
  obtain n i where x: "x = (n, i)" by (cases x)
  let ?t = "new_tool i n (descr n) (schema n) BUILTIN now"
  let ?r1 = "r\<lparr>objs := objs r @ [?t],
               tools := dict_set (tools r) (td_id ?t) (length (objs r)),
               tools_by_name := dict_set (tools_by_name r) n (length (objs r)),
               handlers := dict_set (handlers r) n (BuiltinHandler n)\<rparr>"
  have inv1: "\<forall>a \<in> snd ` set (tools ?r1). a < length (objs ?r1) \<and> scope (objs ?r1 ! a) = BUILTIN"
  proof
    fix a assume "a \<in> snd ` set (tools ?r1)"
    then have "a = length (objs r) \<or> a \<in> snd ` set (tools r)"
      using dict_set_values [of "tools r" "td_id ?t" "length (objs r)"] by auto
    then show "a < length (objs ?r1) \<and> scope (objs ?r1 ! a) = BUILTIN"
      using Cons.prems by (auto simp: nth_append new_tool_def)
  qed
  have step: "register_builtins r (x # nis) descr schema now
              = register_builtins ?r1 nis descr schema now"
    by (simp add: x Let_def)
  from Cons.IH [OF inv1] show ?case
    unfolding step by (auto simp: x dict_set_keys new_tool_def)
qed

lemma ToolRegistry_init_inv:
  "\<forall>a \<in> snd ` set (tools (ToolRegistry_init ids descr schema now)).
      a < length (objs (ToolRegistry_init ids descr schema now))
      \<and> scope (objs (ToolRegistry_init ids descr schema now) ! a) = BUILTIN"
  "fst ` set (tools_by_name (ToolRegistry_init ids descr schema now)) \<subseteq> set BUILTIN_TOOLS"
  "fst ` set (tools (ToolRegistry_init ids descr schema now)) \<subseteq> set ids"
proof -
  let ?r0 = "\<lparr>objs = [], tools = [], tools_by_name = [], handlers = [], execution_log = []\<rparr>"
  have "\<forall>a \<in> snd ` set (tools ?r0). a < length (objs ?r0) \<and> scope (objs ?r0 ! a) = BUILTIN"
    by simp
  note inv = register_builtins_inv [OF this, of "zip BUILTIN_TOOLS ids" descr schema now]
  from inv show "\<forall>a \<in> snd ` set (tools (ToolRegistry_init ids descr schema now)).
      a < length (objs (ToolRegistry_init ids descr schema now))
      \<and> scope (objs (ToolRegistry_init ids descr schema now) ! a) = BUILTIN"
    by (simp add: ToolRegistry_init_def)
  from inv show "fst ` set (tools_by_name (ToolRegistry_init ids descr schema now))
                   \<subseteq> set BUILTIN_TOOLS"
    by (auto simp: ToolRegistry_init_def dest: set_zip_leftD)
  from inv show "fst ` set (tools (ToolRegistry_init ids descr schema now)) \<subseteq> set ids"
    by (auto simp: ToolRegistry_init_def dest: set_zip_rightD)
qed

lemma ToolRegistry_init_all_builtin:
  "filter (\<lambda>t. scope t \<noteq> BUILTIN) (get_all_tools (ToolRegistry_init ids descr schema now)) = []"
  using ToolRegistry_init_inv(1) [of ids descr schema now]
  by (auto simp: get_all_tools_def dict_values_def filter_empty_conv)


lemma map_pair_zip: "map (\<lambda>a. (f a, a)) xs = zip (map f xs) xs"
  by (induction xs) simp_all

text \<open>
  C9 as stated fails on a state that the registry reaches by \<^verbatim>\<open>update\<close>: after \<open>beta\<close> was
  renamed to \<open>alpha\<close> the registry stores the tools \<open>t1\<close> and \<open>t2\<close>, both named \<open>alpha\<close>;
  \<^verbatim>\<open>load\<close> registers \<open>t1\<close>, swallows the conflict for \<open>t2\<close>, and the loaded civilization has
  one of the two definitions.
\<close>

theorem reload_drops_renamed_tool:
  "map td_id (custom_tools civ_renamed) = [''t1'', ''t2'']
   \<and> (case reloaded civ_renamed [] default_config example_ids (\<lambda>_. []) (\<lambda>_. JDict []) 0 of
         Inl e \<Rightarrow> False
       | Inr c \<Rightarrow> map td_id (custom_tools c) = [''t1''])"
  by code_simp

text \<open>
  C9, amended. Let the dictionaries of the civilization have distinct keys, the agents
  and their saved states the same keys (as \<^verbatim>\<open>create_agent\<close> and \<^verbatim>\<open>load\<close> keep them),
  every alliance be stored under its own identifier, and let the tools other than
  built-ins have pairwise distinct names, none of them the name of a built-in, and
  pairwise distinct identifiers, none of them drawn again for a built-in of the new
  registry. Then save followed by load of the saved identifier returns a civilization
  with the same number of agents, the same state (name, role, knowledge and the rest)
  under every agent key, the same name, the same alliances, and the same list of
  non-builtin tool definitions.
\<close>

theorem save_load_round_trip:
  assumes "distinct (map fst (agents civ))"
    and "map fst (agent_states (c_state civ)) = map fst (agents civ)"
    and "distinct (map fst (c_alliances civ))"
    and "map (\<lambda>(k, a). al_id a) (c_alliances civ) = map fst (c_alliances civ)"
    and "distinct (map td_name (custom_tools civ))"
    and "set (map td_name (custom_tools civ)) \<inter> set BUILTIN_TOOLS = {}"
    and "distinct (map td_id (custom_tools civ))"
    and "set (map td_id (custom_tools civ)) \<inter> set ids = {}"
  shows "\<exists>civ'. reloaded civ st cfg ids descr schema now = Inr civ'
           \<and> length (agents civ') = length (agents civ)
           \<and> agent_table civ' = agent_table civ
           \<and> cs_name (c_state civ') = cs_name (c_state civ)
           \<and> length (c_alliances civ') = length (c_alliances civ)
           \<and> c_alliances civ' = c_alliances civ
           \<and> custom_tools civ' = custom_tools civ"
proof -
  let ?customs = "custom_tools civ"
  let ?states = "map (\<lambda>(k, a). (k, state a)) (agents civ)"
  let ?s2 = "(c_state civ)\<lparr>tool_definitions := ?customs,
                alliances := dict_values (c_alliances civ),
                agent_states := ?states\<rparr>"
  let ?r0 = "ToolRegistry_init ids descr schema now"
  have refreshed: "foldl (\<lambda>d (k, a). dict_set d k (state a)) (agent_states (c_state civ))
                     (agents civ) = ?states"
    by (rule foldl_dict_set_refresh [OF assms(2) assms(1)])
  have saved: "snd (save civ st) = dict_set st (cs_id (c_state civ)) ?s2"
    by (simp add: save_def Let_def refreshed custom_tools_def)
  have found: "dict_get (snd (save civ st)) (cs_id (c_state civ)) = Some ?s2"
    by (simp add: saved)
  have ag: "foldl (\<lambda>d (k, s). dict_set d k \<lparr>state = s, delegation_chain = []\<rparr>) [] ?states
              = map (\<lambda>(k, s). (k, \<lparr>state = s, delegation_chain = []\<rparr>)) ?states"
    using foldl_dict_set_fresh [of ?states "[]" "\<lambda>s. \<lparr>state = s, delegation_chain = []\<rparr>"]
      assms(1)
    by (simp add: comp_def split_beta)
  have al_ids: "map al_id (dict_values (c_alliances civ)) = map fst (c_alliances civ)"
    using assms(4) by (simp add: dict_values_def comp_def split_beta)
  have al: "foldl (\<lambda>d a. dict_set d (al_id a) a) [] (dict_values (c_alliances civ))
              = c_alliances civ"
  proof -
    have "foldl (\<lambda>d a. dict_set d (al_id a) a) [] (dict_values (c_alliances civ))
            = map (\<lambda>a. (al_id a, a)) (dict_values (c_alliances civ))"
      using assms(3) by (intro foldl_dict_set_by_id) (simp add: al_ids)
    also have "\<dots> = zip (map al_id (dict_values (c_alliances civ)))
                        (dict_values (c_alliances civ))"
      by (rule map_pair_zip)
    also have "\<dots> = c_alliances civ"
      unfolding al_ids by (simp add: dict_values_def zip_map_fst_snd)
    finally show ?thesis .
  qed
  have tl: "get_all_tools (foldl (\<lambda>r t. snd (register r t)) ?r0 ?customs)
              = get_all_tools ?r0 @ ?customs"
  proof (rule register_all_appends)
    show "distinct (map td_name ?customs)" by (rule assms(5))
    show "set (map td_name ?customs) \<inter> fst ` set (tools_by_name ?r0) = {}"
      using assms(6) ToolRegistry_init_inv(2) [of ids descr schema now] by auto
    show "distinct (map td_id ?customs)" by (rule assms(7))
    show "set (map td_id ?customs) \<inter> fst ` set (tools ?r0) = {}"
      using assms(8) ToolRegistry_init_inv(3) [of ids descr schema now] by auto
    show "\<forall>a \<in> snd ` set (tools ?r0). a < length (objs ?r0)"
      using ToolRegistry_init_inv(1) [of ids descr schema now] by simp
  qed
  have keep: "filter (\<lambda>t. scope t \<noteq> BUILTIN) ?customs = ?customs"
    by (simp add: custom_tools_def)
  let ?civ' = "(Civilization_init cfg (cs_name ?s2) ids descr schema [] now)
      \<lparr>c_state := ?s2,
        agents := map (\<lambda>(k, s). (k, \<lparr>state = s, delegation_chain = []\<rparr>)) ?states,
        tool_registry := foldl (\<lambda>r t. snd (register r t)) ?r0 ?customs,
        c_alliances := c_alliances civ\<rparr>"
  have "reloaded civ st cfg ids descr schema now = Inr ?civ'"
    by (simp add: reloaded_def load_def found Let_def Civilization_init_def ag al)
  moreover have "length (agents ?civ') = length (agents civ)" by simp
  moreover have "agent_table ?civ' = agent_table civ"
    by (simp add: agent_table_def comp_def split_beta)
  moreover have "cs_name (c_state ?civ') = cs_name (c_state civ)" by simp
  moreover have "c_alliances ?civ' = c_alliances civ" by simp
  moreover have "custom_tools ?civ' = ?customs"
  proof -
    have reg': "tool_registry ?civ' = foldl (\<lambda>r t. snd (register r t)) ?r0 ?customs"
      by simp
    have "custom_tools ?civ'
            = filter (\<lambda>t. scope t \<noteq> BUILTIN) (get_all_tools ?r0 @ ?customs)"
      unfolding custom_tools_def [of ?civ'] reg' tl ..
    also have "\<dots> = ?customs"
      using keep ToolRegistry_init_all_builtin [of ids descr schema now] by simp
    finally show ?thesis .
  qed
  ultimately show ?thesis by (intro exI [of _ ?civ']) simp
qed

theorem save_load_round_trip_witness:
  "distinct (map fst (agents civ_tools))
   \<and> map fst (agent_states (c_state civ_tools)) = map fst (agents civ_tools)
   \<and> distinct (map fst (c_alliances civ_tools))
   \<and> map (\<lambda>(k, a). al_id a) (c_alliances civ_tools) = map fst (c_alliances civ_tools)
   \<and> map td_name (custom_tools civ_tools) = [''alpha'', ''beta'']
   \<and> map td_id (custom_tools civ_tools) = [''t1'', ''t2'']
   \<and> map fst (agents civ_tools) = [''A'', ''B'']
   \<and> map fst (c_alliances civ_tools) = [''al-1'']
   \<and> (\<exists>civ'. reloaded civ_tools [] default_config example_ids (\<lambda>_. []) (\<lambda>_. JDict []) 0
                = Inr civ'
          \<and> length (agents civ') = length (agents civ_tools)
          \<and> agent_table civ' = agent_table civ_tools
          \<and> cs_name (c_state civ') = cs_name (c_state civ_tools)
          \<and> length (c_alliances civ') = length (c_alliances civ_tools)
          \<and> c_alliances civ' = c_alliances civ_tools
          \<and> custom_tools civ' = custom_tools civ_tools)"
proof -
  have h: "distinct (map fst (agents civ_tools))"
    "map fst (agent_states (c_state civ_tools)) = map fst (agents civ_tools)"
    "distinct (map fst (c_alliances civ_tools))"
    "map (\<lambda>(k, a). al_id a) (c_alliances civ_tools) = map fst (c_alliances civ_tools)"
    "distinct (map td_name (custom_tools civ_tools))"
    "set (map td_name (custom_tools civ_tools)) \<inter> set BUILTIN_TOOLS = {}"
    "distinct (map td_id (custom_tools civ_tools))"
    "set (map td_id (custom_tools civ_tools)) \<inter> set example_ids = {}"
    by code_simp+
  have e: "map td_name (custom_tools civ_tools) = [''alpha'', ''beta'']"
    "map td_id (custom_tools civ_tools) = [''t1'', ''t2'']"
    "map fst (agents civ_tools) = [''A'', ''B'']"
    "map fst (c_alliances civ_tools) = [''al-1'']"
    by code_simp+
  from save_load_round_trip [OF h, of "[]" default_config "\<lambda>_. []" "\<lambda>_. JDict []" 0] h(1-4) e
  show ?thesis by simp
qed

section \<open>Skeletons of fragments that differ in one literal\<close>

lemma quote_chars [simp]:
  "dq \<noteq> sq" "sq \<noteq> dq" "\<not> is_word dq" "\<not> is_word sq" "dq \<noteq> CHR ''.''" "sq \<noteq> CHR ''.''"
  "\<not> is_digit dq" "\<not> is_digit sq"
  by (simp_all add: dq_def sq_def is_word_def is_digit_def in_ranges_def)

lemma digit_is_word: "is_digit c \<Longrightarrow> is_word c"
  by (simp add: is_digit_def is_word_def in_ranges_def)

lemma digit_not_quote: "is_digit c \<Longrightarrow> c \<noteq> dq \<and> c \<noteq> sq"
  by (auto simp: is_digit_def dq_def sq_def in_ranges_def)

lemma quote_match_miss: "c \<noteq> q \<Longrightarrow> quote_match q p (c # cs) = 0"
  by (simp add: quote_match_def)

lemma quote_match_prev: "quote_match q p s = quote_match q p' s"
  by (simp add: quote_match_def)

lemma all_digits_quote_free: "all_digits n \<Longrightarrow> quote_free n"
  by (auto simp: all_digits_def quote_free_def list_all_iff dest: digit_not_quote)

lemma all_digits_last: "all_digits n \<Longrightarrow> is_digit (last n)"
  by (auto simp: all_digits_def list_all_iff)

lemma number_literal_cases:
  assumes "number_literal n"
  shows "all_digits n \<or> (\<exists>d1 d2. n = d1 @ CHR ''.'' # d2 \<and> all_digits d1 \<and> all_digits d2)"
proof -
  define d1 where "d1 = takeWhile is_digit n"
  define r1 where "r1 = dropWhile is_digit n"
  have n: "n = d1 @ r1" by (simp add: d1_def r1_def)
  have d1: "all_digits d1"
    using assms unfolding d1_def number_literal_def all_digits_def Let_def list_all_iff
    by (auto dest: set_takeWhileD)
  from assms have r1: "r1 = [] \<or> (hd r1 = CHR ''.'' \<and> all_digits (tl r1))"
    by (simp add: number_literal_def Let_def r1_def)
  show ?thesis
  proof (cases r1)
    case Nil
    with n d1 show ?thesis by simp
  next
    case (Cons c r2)
    with r1 have "c = CHR ''.''" and "all_digits r2" by simp_all
    with n d1 Cons show ?thesis by blast
  qed
qed

text \<open>The string substitutions on pieces.\<close>

lemma re_sub_quote_prev:
  "re_sub (quote_match q) r p s = re_sub (quote_match q) r p' s"
  using quote_match_prev [of q p _ p'] by (cases s) simp_all

lemma re_sub_quote_skip:
  "q \<notin> set x \<Longrightarrow> re_sub (quote_match q) r p (x @ y) = x @ re_sub (quote_match q) r p y"
proof (induction x arbitrary: p)
  case Nil
  then show ?case by simp
next
  case (Cons c x)
  then have "c \<noteq> q" by auto
  then have "re_sub (quote_match q) r p ((c # x) @ y)
               = c # re_sub (quote_match q) r (is_word c) (x @ y)"
    by (simp add: quote_match_miss)
  also have "\<dots> = c # x @ re_sub (quote_match q) r (is_word c) y"
    using Cons by simp
  also have "\<dots> = (c # x) @ re_sub (quote_match q) r p y"
    using re_sub_quote_prev [of q r "is_word c" y p] by simp
  finally show ?case .
qed

lemma re_sub_quote_literal:
  assumes "q \<notin> set s"
  shows "re_sub (quote_match q) r p (q # s @ q # rest) = r @ re_sub (quote_match q) r p rest"
proof -
  have tw: "takeWhile (\<lambda>x. x \<noteq> q) (s @ q # rest) = s"
    using assms by (subst takeWhile_append2) auto
  have m: "quote_match q p (q # s @ q # rest) = length s + 2"
    by (simp add: quote_match_def tw)
  have "re_sub (quote_match q) r p (q # s @ q # rest)
          = r @ re_sub (quote_match q) r
                  (is_word (last (take (length s + 2) (q # s @ q # rest))))
                  (drop (length s + 2) (q # s @ q # rest))"
    using m by simp
  also have "drop (length s + 2) (q # s @ q # rest) = rest" by simp
  finally show ?thesis
    using re_sub_quote_prev [of q r _ rest p] by simp
qed

lemma sub_dq_pieces:
  assumes "list_all plain ps"
  shows "re_sub (quote_match dq) (str_placeholder dq) p (render ps @ rest)
           = render (map after_dq ps) @ re_sub (quote_match dq) (str_placeholder dq) p rest"
  using assms
proof (induction ps)
  case Nil
  then show ?case by simp
next
  case (Cons x ps)
  show ?case
  proof (cases x)
    case (Text t)
    with Cons show ?thesis
      by (simp add: quote_free_def re_sub_quote_skip)
  next
    case (Literal q s)
    show ?thesis
    proof (cases "q = dq")
      case True
      with Cons Literal show ?thesis
        using re_sub_quote_literal [of dq s "str_placeholder dq" p "render ps @ rest"]
        by (simp add: literal_ok_def)
    next
      case False
      with Cons.prems Literal have q: "q = sq" and s: "dq \<notin> set s"
        by (auto simp: literal_ok_def)
      then have "dq \<notin> set (q # s @ [q])" by simp
      from re_sub_quote_skip [OF this, of "str_placeholder dq" p "render ps @ rest"]
      show ?thesis using Cons Literal False q by (simp del: re_sub.simps)
    qed
  qed
qed

lemma sub_sq_pieces:
  assumes "list_all sq_ready ps"
  shows "re_sub (quote_match sq) (str_placeholder sq) p (render ps @ rest)
           = render (map after_sq ps) @ re_sub (quote_match sq) (str_placeholder sq) p rest"
  using assms
proof (induction ps)
  case Nil
  then show ?case by simp
next
  case (Cons x ps)
  show ?case
  proof (cases x)
    case (Text t)
    with Cons show ?thesis by (simp add: re_sub_quote_skip)
  next
    case (Literal q s)
    with Cons show ?thesis
      using re_sub_quote_literal [of sq s "str_placeholder sq" p "render ps @ rest"]
      by simp
  qed
qed

lemma plain_sq_ready: "plain x \<Longrightarrow> sq_ready (after_dq x)"
  by (cases x) (auto simp: quote_free_def literal_ok_def str_placeholder_def sq_def dq_def)

lemma sub_strings_pieces:
  assumes "list_all plain ps"
  shows "sub_strings (render ps @ rest)
           = render (map after_strings ps) @ sub_strings rest"
proof -
  have "list_all sq_ready (map after_dq ps)"
    using assms by (simp add: list_all_iff plain_sq_ready)
  moreover have "map after_sq (map after_dq ps) = map after_strings ps"
    by (simp add: after_strings_def)
  ultimately show ?thesis
    using sub_sq_pieces [of "map after_dq ps"] sub_dq_pieces [OF assms]
    by (simp add: sub_strings_def del: map_map)
qed

text \<open>The ends of the text are kept by the string substitutions.\<close>

lemma render_append: "render (a @ b) = render a @ render b"
  by (induction a rule: render.induct) simp_all

lemma ends_open_append: "ends_open (a @ b) = (if b = [] then ends_open a else ends_open b)"
  by (simp add: ends_open_def)

lemma ends_open_piece:
  "plain x \<Longrightarrow> render [after_strings x] = [] \<longleftrightarrow> render [x] = []"
  "plain x \<Longrightarrow> ends_open (render [after_strings x]) = ends_open (render [x])"
  by (cases x; auto simp: ends_open_def str_placeholder_def literal_ok_def after_strings_def)+

lemma ends_open_pieces:
  "list_all plain ps \<Longrightarrow>
   ends_open (render (map after_strings ps)) = ends_open (render ps)"
proof (induction ps rule: rev_induct)
  case Nil
  then show ?case by simp
next
  case (snoc x ps)
  then have x: "plain x" and ps: "list_all plain ps" by simp_all
  have "ends_open (render (map after_strings (ps @ [x])))
          = ends_open (render (map after_strings ps) @ render [after_strings x])"
    by (simp add: render_append)
  also have "\<dots> = ends_open (render ps @ render [x])"
    using snoc.IH [OF ps] ends_open_piece [OF x]
    by (simp only: ends_open_append split: if_splits)
  finally show ?case by (simp add: render_append)
qed

lemma quote_match_hit: "quote_match q p (c # cs) \<noteq> 0 \<Longrightarrow> c = q"
  by (simp add: quote_match_def split: if_splits)

lemma starts_open_re_sub_quote:
  "starts_open (re_sub (quote_match q) (str_placeholder q) p s) = starts_open s"
proof (cases s)
  case Nil
  then show ?thesis by simp
next
  case (Cons c cs)
  show ?thesis
  proof (cases "quote_match q p (c # cs) = 0")
    case True
    with Cons show ?thesis by (simp add: starts_open_def)
  next
    case False
    with quote_match_hit [of q p c cs] have "c = q" by simp
    with False Cons show ?thesis by (simp add: starts_open_def str_placeholder_def)
  qed
qed

lemma starts_open_sub_strings: "starts_open (sub_strings s) = starts_open s"
  by (simp add: sub_strings_def starts_open_re_sub_quote)

text \<open>The number substitution.\<close>

lemma re_sub_unfold:
  "s \<noteq> [] \<Longrightarrow>
   re_sub m r p s =
     (if m p s = 0 then hd s # re_sub m r (is_word (hd s)) (tl s)
      else r @ re_sub m r (is_word (last (take (m p s) s))) (drop (m p s) s))"
  by (cases s) simp_all

lemma starts_word_append: "r \<noteq> [] \<Longrightarrow> starts_word (r @ X) = starts_word r"
  by (cases r) (simp_all add: starts_word_def)

lemma while_stop:
  assumes "s \<noteq> []" "\<not> P (last s)"
  shows "takeWhile P (s @ X) = takeWhile P s"
    and "dropWhile P (s @ X) = dropWhile P s @ X"
    and "dropWhile P s \<noteq> []"
    and "last (dropWhile P s) = last s"
proof -
  from assms have in_s: "last s \<in> set s" by simp
  from in_s assms(2) show "takeWhile P (s @ X) = takeWhile P s"
    by (rule takeWhile_append1)
  from in_s assms(2) show "dropWhile P (s @ X) = dropWhile P s @ X"
    by (rule dropWhile_append1)
  from in_s assms(2) show ne: "dropWhile P s \<noteq> []"
    by (auto simp: dropWhile_eq_Nil_conv)
  have "last s = last (takeWhile P s @ dropWhile P s)" by simp
  also have "\<dots> = last (dropWhile P s)" using ne by (rule last_appendR)
  finally show "last (dropWhile P s) = last s" by simp
qed

lemma num_match_prefix:
  assumes "s \<noteq> []" "\<not> is_digit (last s)" "last s \<noteq> CHR ''.''"
  shows "num_match prev (s @ X) = num_match prev s \<and> num_match prev s < length s"
proof -
  define d1 where "d1 = takeWhile is_digit s"
  define r1 where "r1 = dropWhile is_digit s"
  note w1 = while_stop [where P = is_digit and s = s, OF assms(1,2),
      folded d1_def r1_def]
  have len: "length s = length d1 + length r1"
    unfolding d1_def r1_def by (metis length_append takeWhile_dropWhile_id)
  from w1(3) obtain c r2 where r1: "r1 = c # r2" by (cases r1) auto
  show ?thesis
  proof (cases "c = CHR ''.''")
    case False
    then show ?thesis
      using w1 len r1 assms(1)
      by (simp add: num_match_def Let_def flip: d1_def r1_def)
  next
    case True
    with r1 w1(4) assms(3) have r2ne: "r2 \<noteq> []" by auto
    with r1 w1(4) have last2: "last r2 = last s" by simp
    define d2 where "d2 = takeWhile is_digit r2"
    define r3 where "r3 = dropWhile is_digit r2"
    from last2 assms(2) have nd: "\<not> is_digit (last r2)" by simp
    note w2 = while_stop [where P = is_digit and s = r2, OF r2ne nd,
      folded d2_def r3_def]
    have len2: "length r2 = length d2 + length r3"
      unfolding d2_def r3_def by (metis length_append takeWhile_dropWhile_id)
    from w2(3) have r3pos: "0 < length r3" by simp
    have eq: "num_match prev (s @ X) = num_match prev s"
      using w1 w2 r1 True r2ne
      by (simp add: num_match_def Let_def starts_word_append flip: d1_def r1_def d2_def r3_def)
    have bound: "num_match prev s \<le> length d1 + 1 + length d2"
      using r1 True
      by (simp add: num_match_def Let_def flip: d1_def r1_def d2_def r3_def)
    from len len2 r1 have "length s = length d1 + 1 + length d2 + length r3" by simp
    with bound r3pos have "num_match prev s < length s" by linarith
    with eq show ?thesis by simp
  qed
qed

lemma re_sub_num_prefix:
  assumes "P \<noteq> []" "\<not> is_digit (last P)" "last P \<noteq> CHR ''.''"
  shows "re_sub num_match R prev (P @ X)
           = re_sub num_match R prev P @ re_sub num_match R (is_word (last P)) X"
  using assms
proof (induction "length P" arbitrary: P prev rule: less_induct)
  case less
  note ne = less.prems(1)
  from num_match_prefix [OF less.prems, of prev X]
  have m: "num_match prev (P @ X) = num_match prev P" and lt: "num_match prev P < length P"
    by simp_all
  show ?case
  proof (cases "num_match prev P = 0")
    case True
    show ?thesis
    proof (cases "tl P = []")
      case True
      with ne have P: "P = [hd P]" by (cases P) simp_all
      then have "last P = hd P" by (metis last.simps)
      with \<open>num_match prev P = 0\<close> m P show ?thesis
        using re_sub_unfold [of "P @ X" num_match R prev] re_sub_unfold [of P num_match R prev] ne
        by (simp add: True)
    next
      case False
      with ne have lastP: "last (tl P) = last P" by (cases P) simp_all
      from ne have "length (tl P) < length P" by (cases P) simp_all
      from less.hyps [OF this False, of "is_word (hd P)"] less.prems(2,3) lastP
      have "re_sub num_match R (is_word (hd P)) (tl P @ X)
              = re_sub num_match R (is_word (hd P)) (tl P)
                @ re_sub num_match R (is_word (last P)) X"
        by simp
      with \<open>num_match prev P = 0\<close> m show ?thesis
        using re_sub_unfold [of "P @ X" num_match R prev] re_sub_unfold [of P num_match R prev] ne
        by simp
    qed
  next
    case False
    define n where "n = num_match prev P"
    from False lt have n: "0 < n" "n < length P" by (simp_all add: n_def)
    then have dne: "drop n P \<noteq> []" and dlast: "last (drop n P) = last P"
      and dlen: "length (drop n P) < length P"
      by simp_all
    from less.hyps [OF dlen dne, of "is_word (last (take n P))"] less.prems(2,3) dlast
    have "re_sub num_match R (is_word (last (take n P))) (drop n P @ X)
            = re_sub num_match R (is_word (last (take n P))) (drop n P)
              @ re_sub num_match R (is_word (last P)) X"
      by simp
    with False m n show ?thesis
      using re_sub_unfold [of "P @ X" num_match R prev] re_sub_unfold [of P num_match R prev] ne
      by (simp add: n_def)
  qed
qed

lemma not_digit_starts_open: "starts_open Q \<Longrightarrow> takeWhile is_digit Q = [] \<and> dropWhile is_digit Q = Q"
  by (cases Q) (auto simp: starts_open_def dest: digit_is_word)

lemma digits_then:
  assumes "all_digits d" "takeWhile is_digit Q = []"
  shows "takeWhile is_digit (d @ Q) = d" "dropWhile is_digit (d @ Q) = dropWhile is_digit Q"
proof -
  from assms(1) have all: "\<And>x. x \<in> set d \<Longrightarrow> is_digit x"
    by (simp add: all_digits_def list_all_iff)
  from all have "takeWhile is_digit (d @ Q) = d @ takeWhile is_digit Q"
    by (rule takeWhile_append2)
  with assms(2) show "takeWhile is_digit (d @ Q) = d" by simp
  from all show "dropWhile is_digit (d @ Q) = dropWhile is_digit Q"
    by (rule dropWhile_append2)
qed

lemma num_match_number:
  assumes "number_literal n" "starts_open Q"
  shows "num_match False (n @ Q) = length n"
proof -
  note q = not_digit_starts_open [OF assms(2)]
  have sw: "\<not> starts_word Q"
    using assms(2) by (cases Q) (simp_all add: starts_open_def starts_word_def)
  from number_literal_cases [OF assms(1)] show ?thesis
  proof (elim disjE exE conjE)
    assume d: "all_digits n"
    then have ne: "n \<noteq> []" by (simp add: all_digits_def)
    from digits_then [OF d, of Q] q
    have t: "takeWhile is_digit (n @ Q) = n" and r: "dropWhile is_digit (n @ Q) = Q"
      by simp_all
    show ?thesis
      unfolding num_match_def Let_def t r
      using ne assms(2) by (cases Q) (simp_all add: starts_open_def)
  next
    fix d1 d2
    assume n: "n = d1 @ CHR ''.'' # d2" and d1: "all_digits d1" and d2: "all_digits d2"
    have dot: "takeWhile is_digit (CHR ''.'' # d2 @ Q) = []"
      by (simp add: is_digit_def in_ranges_def)
    from digits_then [OF d1 dot]
    have t1: "takeWhile is_digit (n @ Q) = d1"
      and r1: "dropWhile is_digit (n @ Q) = CHR ''.'' # d2 @ Q"
      by (simp_all add: n is_digit_def in_ranges_def)
    from digits_then [OF d2, of Q] q
    have t2: "takeWhile is_digit (d2 @ Q) = d2" and r2: "dropWhile is_digit (d2 @ Q) = Q"
      by simp_all
    from d1 d2 have "d1 \<noteq> []" "d2 \<noteq> []" by (simp_all add: all_digits_def)
    with t1 r1 t2 r2 sw show ?thesis
      by (simp add: num_match_def Let_def n)
  qed
qed

lemma number_literal_last: "number_literal n \<Longrightarrow> n \<noteq> [] \<and> is_word (last n)"
  using number_literal_cases [of n] all_digits_last digit_is_word
  by (auto simp: all_digits_def)

lemma number_literal_quote_free: "number_literal n \<Longrightarrow> quote_free n"
  using number_literal_cases [of n] all_digits_quote_free
  by (auto simp: quote_free_def dq_def sq_def)

lemma re_sub_num_number:
  assumes "number_literal n" "starts_open Q"
  shows "re_sub num_match R False (n @ Q) = R @ re_sub num_match R True Q"
proof -
  from number_literal_last [OF assms(1)] have ne: "n \<noteq> []" and w: "is_word (last n)"
    by simp_all
  from ne have "n @ Q \<noteq> []" by simp
  from re_sub_unfold [OF this, of num_match R False] num_match_number [OF assms] ne w
  show ?thesis by simp
qed

lemma re_sub_num_literal:
  assumes "ends_open P" "number_literal n" "starts_open Q"
  shows "re_sub num_match R False (P @ n @ Q)
           = re_sub num_match R False P @ R @ re_sub num_match R True Q"
proof (cases "P = []")
  case True
  with re_sub_num_number [OF assms(2,3)] show ?thesis by simp
next
  case False
  with assms(1) have w: "\<not> is_word (last P)" and dot: "last P \<noteq> CHR ''.''"
    by (simp_all add: ends_open_def)
  from w have "\<not> is_digit (last P)" using digit_is_word by blast
  from re_sub_num_prefix [OF False this dot, of R False "n @ Q"] w
    re_sub_num_number [OF assms(2,3), of R]
  show ?thesis by simp
qed

text \<open>The text after the string substitutions, for the two kinds of literal.\<close>

lemma sub_strings_string_literal:
  assumes "list_all plain ps" "literal_ok q s"
  shows "sub_strings (render ps @ q # s @ q # post)
           = render (map after_strings ps) @ str_placeholder q @ sub_strings post"
proof -
  from assms have "list_all plain (ps @ [Literal q s])" by simp
  from sub_strings_pieces [OF this, of post] assms(2) show ?thesis
    by (auto simp: render_append literal_ok_def after_strings_def)
qed

lemma sub_strings_number_literal:
  assumes "list_all plain ps" "number_literal n"
  shows "sub_strings (render ps @ n @ post)
           = render (map after_strings ps) @ n @ sub_strings post"
proof -
  from assms number_literal_quote_free have "list_all plain (ps @ [Text n])" by simp
  from sub_strings_pieces [OF this, of post] show ?thesis
    by (simp add: render_append after_strings_def)
qed

lemma skeleton_number_literal:
  assumes "list_all plain ps" "ends_open (render ps)" "number_literal n" "starts_open post"
  shows "extract_skeleton (render ps @ n @ post)
           = strip (re_sub space_match '' '' False
               (re_sub num_match ''<NUM>'' False (render (map after_strings ps))
                @ ''<NUM>'' @ re_sub num_match ''<NUM>'' True (sub_strings post)))"
proof -
  from assms(1,2) have "ends_open (render (map after_strings ps))"
    by (simp add: ends_open_pieces)
  moreover from assms(4) have "starts_open (sub_strings post)"
    by (simp add: starts_open_sub_strings)
  ultimately show ?thesis
    using assms(3) sub_strings_number_literal [OF assms(1,3), of post]
    by (simp add: extract_skeleton_def re_sub_num_literal)
qed

text \<open>
  C8 (as the code has it). Two fragments that differ in one string literal have the same
  skeleton when the text before the literal is made of quote-free text and of string
  literals, and no literal in double quotes contains a double quote and no literal in
  single quotes contains a quote character of either kind (\<open>plain\<close>, \<open>literal_ok\<close>);
  the text after the literal is arbitrary. Two fragments that differ in one number have
  the same skeleton when the number is a run of digits, or digits, a dot and digits
  (\<open>number_literal\<close>), the text before it is as above and ends with neither a word
  character nor a dot, and the text after it starts with neither. In both cases the
  rest of the fragment may hold literals of the other kind.
\<close>

theorem skeleton_ignores_literal_values:
  assumes "list_all plain ps"
  shows "(literal_ok q s1 \<and> literal_ok q s2 \<longrightarrow>
            extract_skeleton (render ps @ q # s1 @ q # post)
              = extract_skeleton (render ps @ q # s2 @ q # post))
       \<and> (ends_open (render ps) \<and> number_literal n1 \<and> number_literal n2 \<and> starts_open post \<longrightarrow>
            extract_skeleton (render ps @ n1 @ post)
              = extract_skeleton (render ps @ n2 @ post))"
proof (intro conjI impI)
  assume "literal_ok q s1 \<and> literal_ok q s2"
  then show "extract_skeleton (render ps @ q # s1 @ q # post)
               = extract_skeleton (render ps @ q # s2 @ q # post)"
    using sub_strings_string_literal [OF assms, of q s1 post]
      sub_strings_string_literal [OF assms, of q s2 post]
    by (simp add: extract_skeleton_def)
next
  assume "ends_open (render ps) \<and> number_literal n1 \<and> number_literal n2 \<and> starts_open post"
  then show "extract_skeleton (render ps @ n1 @ post) = extract_skeleton (render ps @ n2 @ post)"
    using skeleton_number_literal [OF assms, of n1 post]
      skeleton_number_literal [OF assms, of n2 post]
    by simp
qed

lemma example_classes:
  "list_all plain [Text ''load(''] \<and> ends_open (render [Text ''load(''])
   \<and> list_all plain [Text ''f('', Literal dq ''a.csv'', Text '', ''] 
   \<and> ends_open (render [Text ''f('', Literal dq ''a.csv'', Text '', ''])
   \<and> list_all plain [Text ''x = ''] \<and> ends_open (render [Text ''x = ''])
   \<and> literal_ok dq ''a.csv'' \<and> literal_ok dq ''b.csv''
   \<and> number_literal ''5'' \<and> number_literal ''123'' \<and> number_literal ''2.5''
   \<and> starts_open '')'' \<and> starts_open []"
  by code_simp

theorem skeleton_ignores_literal_values_witness:
  "list_all plain [Text ''load(''] \<and> ends_open (render [Text ''load(''])
   \<and> list_all plain [Text ''x = ''] \<and> ends_open (render [Text ''x = ''])
   \<and> list_all plain [Text ''f('', Literal dq ''a.csv'', Text '', ''] 
   \<and> ends_open (render [Text ''f('', Literal dq ''a.csv'', Text '', ''])
   \<and> literal_ok dq ''a.csv'' \<and> literal_ok dq ''b.csv''
   \<and> number_literal ''5'' \<and> number_literal ''123'' \<and> number_literal ''2.5''
   \<and> starts_open '')'' \<and> starts_open []
   \<and> extract_skeleton (''load('' @ dq # ''a.csv'' @ dq # '')'')
       = extract_skeleton (''load('' @ dq # ''b.csv'' @ dq # '')'')
   \<and> extract_skeleton ''x = 5'' = extract_skeleton ''x = 123''
   \<and> extract_skeleton (''f('' @ dq # ''a.csv'' @ dq # '', 5)'')
       = extract_skeleton (''f('' @ dq # ''a.csv'' @ dq # '', 2.5)'')"
  using example_classes
    skeleton_ignores_literal_values
      [of "[Text ''load('']" dq "''a.csv''" "''b.csv''" "'')''" "''5''" "''123''"]
    skeleton_ignores_literal_values
      [of "[Text ''x = '']" dq "''a.csv''" "''b.csv''" "[]" "''5''" "''123''"]
    skeleton_ignores_literal_values
      [of "[Text ''f('', Literal dq ''a.csv'', Text '', '']" dq "''a.csv''" "''b.csv''" "'')''"
          "''5''" "''2.5''"]
  by simp

text \<open>
  Outside these classes the skeleton depends on the values: a string literal with an
  escaped quote, two literals in single quotes that each hold a double quote, and a
  number with an exponent.
\<close>

theorem skeleton_depends_on_literal_values:
  "extract_skeleton (''s = '' @ dq # ''a'' @ CHR 0x5C # dq # ''b'' @ [dq])
     \<noteq> extract_skeleton (''s = '' @ dq # ''ab'' @ [dq])
   \<and> extract_skeleton (''f('' @ sq # ''a'' @ dq # ''b'' @ sq # '', '' @ sq # ''c'' @ dq # ''d'' @ sq # '')'')
     \<noteq> extract_skeleton (''f('' @ sq # ''ab'' @ sq # '', '' @ sq # ''cd'' @ sq # '')'')
   \<and> extract_skeleton ''x = 1e5'' \<noteq> extract_skeleton ''x = 2e5''"
  by code_simp

end
